theory Spec2Isabelle
  imports Main "HOL-Library.Word"
begin

section \<open>Machine types\<close>

text \<open>
  The firmware runs on an ESP32: \<open>unsigned long\<close> and \<open>uint32_t\<close> are 32 bits wide and
  wrap around, so clock readings (\<open>millis()\<close>) and the statistics counters are
  \<open>32 word\<close>. Values of type \<open>int\<close> (retry counters, delays, detection counters) are
  modelled as mathematical integers; where a claim ranges over all of them, the theorem
  states the 32-bit range in which the C++ arithmetic is defined.
\<close>

type_synonym millis = "32 word"
type_synonym u32 = "32 word"

definition INT_MAX :: int where
  "INT_MAX = 2147483647"

text \<open>C++ integer division truncates towards zero.\<close>

definition c_div :: "int \<Rightarrow> int \<Rightarrow> int" where
  "c_div a b = sgn a * sgn b * (\<bar>a\<bar> div \<bar>b\<bar>)"

section \<open>NetworkManager: reconnect backoff\<close>

text \<open>
  The Arduino core's \<open>random(howsmall, howbig)\<close> returns \<open>howsmall\<close> when the range is
  empty and otherwise \<open>howsmall\<close> plus a draw reduced into \<open>[0, howbig - howsmall)\<close>,
  so the result lies in \<open>[howsmall, howbig - 1]\<close>. The raw draw of the generator is the
  parameter \<open>entropy\<close>, reduced modulo the width of the range; every value of the range
  is the result for some draw.
\<close>

definition random_range :: "nat \<Rightarrow> int \<Rightarrow> int \<Rightarrow> int" where
  "random_range entropy howsmall howbig =
     (if howsmall \<ge> howbig then howsmall
      else howsmall + int entropy mod (howbig - howsmall))"

text \<open>
  The first two statements of \<open>NetworkManager::calculateBackoffDelay\<close>:
  \<^verbatim>\<open>int delay = base_delay * (1 << min(retry_count, 6)); delay = min(delay, max_delay);\<close>
\<close>

definition capped_delay :: "int \<Rightarrow> int \<Rightarrow> int \<Rightarrow> int" where
  "capped_delay base_delay retry_count max_delay =
     min (base_delay * 2 ^ nat (min retry_count 6)) max_delay"

text \<open>
  The whole function: the capped delay, plus a jitter drawn from \<open>[-jitter, jitter]\<close>
  with \<open>jitter = delay * 10 / 100\<close>, floored at \<open>base_delay\<close>.
\<close>

definition calculateBackoffDelay :: "nat \<Rightarrow> int \<Rightarrow> int \<Rightarrow> int \<Rightarrow> int" where
  "calculateBackoffDelay entropy base_delay retry_count max_delay =
     (let delay = capped_delay base_delay retry_count max_delay;
          jitter = c_div (delay * 10) 100;
          delay' = delay + random_range entropy (- jitter) (jitter + 1)
      in max delay' base_delay)"

text \<open>The header's default argument: \<open>int max_delay = 60000\<close>.\<close>

definition DEFAULT_MAX_DELAY :: int where
  "DEFAULT_MAX_DELAY = 60000"

text \<open>
  A bound on positive arguments under which no intermediate value of
  \<open>calculateBackoffDelay\<close> leaves the range of a 32-bit \<open>int\<close>: the product with the
  largest factor 64 and ten times the capped delay both fit. Outside the range the C++
  arithmetic is undefined.
\<close>

definition backoff_in_range :: "int \<Rightarrow> int \<Rightarrow> bool" where
  "backoff_in_range base_delay max_delay \<longleftrightarrow>
     base_delay * 64 \<le> INT_MAX \<and> max_delay * 10 \<le> INT_MAX"

section \<open>NetworkManager: data model\<close>

datatype WiFiState =
  WIFI_IDLE | WIFI_CONNECTING | WIFI_CONNECTED | WIFI_RECONNECTING | WIFI_FAILED | WIFI_DISABLED

datatype MQTTState =
  MQTT_IDLE | MQTT_CONNECTING | MQTT_CONNECTED | MQTT_RECONNECTING | MQTT_FAILED | MQTT_DISABLED

datatype ConnectionError =
  ERROR_NONE | ERROR_WIFI_AUTH_FAIL | ERROR_WIFI_NO_SSID_AVAIL | ERROR_WIFI_CONNECT_FAIL
| ERROR_MQTT_CONNECTION_REFUSED | ERROR_MQTT_PROTOCOL_VERSION | ERROR_MQTT_CLIENT_ID_REJECTED
| ERROR_MQTT_SERVER_UNAVAILABLE | ERROR_MQTT_BAD_CREDENTIALS | ERROR_MQTT_NOT_AUTHORIZED
| ERROR_NETWORK_TIMEOUT | ERROR_MEMORY_ALLOCATION | ERROR_SYSTEM_OVERLOAD

text \<open>The link driver's status code (\<open>WiFi.status()\<close>).\<close>

datatype wl_status_t =
  WL_NO_SHIELD | WL_IDLE_STATUS | WL_NO_SSID_AVAIL | WL_SCAN_COMPLETED | WL_CONNECTED
| WL_CONNECT_FAILED | WL_CONNECTION_LOST | WL_DISCONNECTED

text \<open>The tuning values of \<open>NetworkConfig\<close> that the state machines read.\<close>

record NetworkConfig =
  wifi_timeout_ms :: int
  wifi_retry_interval_ms :: int
  wifi_max_retries :: int
  mqtt_timeout_ms :: int
  mqtt_retry_interval_ms :: int
  mqtt_max_retries :: int
  enable_diagnostics :: bool
  health_check_interval_ms :: int

record ConnectionStats =
  wifi_uptime_ms :: u32
  mqtt_uptime_ms :: u32
  wifi_reconnect_count :: u32
  mqtt_reconnect_count :: u32
  wifi_failures :: u32
  mqtt_failures :: u32
  last_wifi_rssi :: "8 word"
  last_connection_time :: u32
  total_uptime_ms :: u32
  messages_sent :: u32
  messages_failed :: u32
  messages_queued :: u32

text \<open>
  \<open>struct QueuedMessage\<close>: \<open>char topic[128]\<close> and \<open>char payload[512]\<close> are byte
  buffers, modelled as character lists of that length. The fields carry the prefix
  \<open>qm_\<close> because the sketch's \<open>SimpleMessage\<close> has fields of the same names.
\<close>

record QueuedMessage =
  qm_topic :: "char list"
  qm_payload :: "char list"
  qm_retained :: bool
  qm_qos :: int
  qm_timestamp :: millis
  qm_retry_count :: int

definition TOPIC_SIZE :: nat where
  "TOPIC_SIZE = 128"

definition PAYLOAD_SIZE :: nat where
  "PAYLOAD_SIZE = 512"

definition MAX_QUEUE_SIZE :: nat where
  "MAX_QUEUE_SIZE = 10"

text \<open>The invocations of the registered callbacks, in order.\<close>

datatype Callback =
  WiFiEvent WiFiState ConnectionError
| MQTTEvent MQTTState ConnectionError
| Diagnostics ConnectionStats

text \<open>
  The members of \<open>NetworkManager\<close>. \<open>message_queue\<close> is the array
  \<open>_message_queue[MAX_QUEUE_SIZE]\<close> and \<open>message_queue_size\<close> the number of its slots
  in use; a callback pointer is the flag whether one is registered plus the log
  \<open>callbacks\<close> of its invocations; \<open>last_diagnostics\<close> is the static local of
  \<open>update\<close>. The count of used slots is a \<open>nat\<close>: the code sets it to 0 or to
  \<open>MAX_QUEUE_SIZE - 1\<close>, increments it, and decrements it only when it is positive.
\<close>

record NetworkManager =
  config :: NetworkConfig
  wifi_state :: WiFiState
  mqtt_state :: MQTTState
  last_error :: ConnectionError
  wifi_last_attempt :: millis
  mqtt_last_attempt :: millis
  last_health_check :: millis
  wifi_retry_count :: int
  mqtt_retry_count :: int
  stats :: ConnectionStats
  wifi_connect_time :: millis
  mqtt_connect_time :: millis
  message_queue :: "QueuedMessage list"
  message_queue_size :: nat
  wifi_callback_set :: bool
  mqtt_callback_set :: bool
  diagnostics_callback_set :: bool
  callbacks :: "Callback list"
  watchdog_enabled :: bool
  last_watchdog_feed :: millis
  last_diagnostics :: millis

text \<open>
  What the drivers and the clock answer during one call: the clock reading, the link
  status, whether the session client is connected, the result of a connect attempt, the
  client's state code afterwards, the result of a send, the signal strength and the raw
  random draw. All readings of \<open>millis()\<close> within one call are taken to be the same
  value; the blocking \<open>delay(100)\<close> of \<open>startWiFiConnection\<close> is not modelled.
\<close>

record Env =
  now :: millis
  wifi_status :: wl_status_t
  client_connected :: bool
  connect_result :: bool
  client_state :: int
  publish_result :: bool
  wifi_rssi :: int
  entropy :: nat

definition empty_stats :: ConnectionStats where
  "empty_stats = \<lparr>wifi_uptime_ms = 0, mqtt_uptime_ms = 0, wifi_reconnect_count = 0,
     mqtt_reconnect_count = 0, wifi_failures = 0, mqtt_failures = 0, last_wifi_rssi = 0,
     last_connection_time = 0, total_uptime_ms = 0, messages_sent = 0, messages_failed = 0,
     messages_queued = 0\<rparr>"

definition NUL :: char where
  "NUL = CHR 0x00"

definition empty_slot :: QueuedMessage where
  "empty_slot = \<lparr>qm_topic = replicate TOPIC_SIZE NUL, qm_payload = replicate PAYLOAD_SIZE NUL,
     qm_retained = False, qm_qos = 0, qm_timestamp = 0, qm_retry_count = 0\<rparr>"

text \<open>The constructor followed by \<open>begin(config)\<close>, for the zero-initialised global.\<close>

definition NetworkManager_init :: "NetworkConfig \<Rightarrow> NetworkManager" where
  "NetworkManager_init cfg = \<lparr>config = cfg, wifi_state = WIFI_IDLE, mqtt_state = MQTT_IDLE,
     last_error = ERROR_NONE, wifi_last_attempt = 0, mqtt_last_attempt = 0,
     last_health_check = 0, wifi_retry_count = 0, mqtt_retry_count = 0,
     stats = empty_stats\<lparr>last_wifi_rssi := word_of_int (- 100)\<rparr>,
     wifi_connect_time = 0, mqtt_connect_time = 0,
     message_queue = replicate MAX_QUEUE_SIZE empty_slot, message_queue_size = 0,
     wifi_callback_set = False, mqtt_callback_set = False, diagnostics_callback_set = False,
     callbacks = [], watchdog_enabled = False, last_watchdog_feed = 0, last_diagnostics = 0\<rparr>"

definition isWiFiConnected :: "NetworkManager \<Rightarrow> bool" where
  "isWiFiConnected s \<longleftrightarrow> wifi_state s = WIFI_CONNECTED"

definition isMQTTConnected :: "NetworkManager \<Rightarrow> bool" where
  "isMQTTConnected s \<longleftrightarrow> mqtt_state s = MQTT_CONNECTED"

section \<open>NetworkManager: the offline message queue\<close>

text \<open>
  A \<open>const char*\<close> argument is the list of bytes at the pointer; the C string it denotes
  is the bytes up to the first NUL. \<open>strncpy dest src n\<close> writes exactly \<open>n\<close> bytes to
  the front of \<open>dest\<close>: the string \<open>src\<close> cut at \<open>n\<close> bytes, padded with NULs.
\<close>

definition cstr :: "char list \<Rightarrow> char list" where
  "cstr buf = takeWhile (\<lambda>c. c \<noteq> NUL) buf"

definition strncpy :: "char list \<Rightarrow> char list \<Rightarrow> nat \<Rightarrow> char list" where
  "strncpy dest src n =
     take n (cstr src) @ replicate (n - length (cstr src)) NUL @ drop n dest"

text \<open>
  The shifting loop \<open>for (i = lo; i < n; i++) queue[i] = queue[i + 1];\<close> of
  \<open>queueMessage\<close> and \<open>processMessageQueue\<close>.
\<close>

function shift_queue :: "nat \<Rightarrow> nat \<Rightarrow> 'a list \<Rightarrow> 'a list" where
  "shift_queue i n q = (if i < n then shift_queue (Suc i) n (q[i := q ! Suc i]) else q)"
  by pat_completeness auto
termination
  by (relation "measure (\<lambda>(i, n, q). n - i)") auto

declare shift_queue.simps [simp del]

text \<open>
  \<open>queueMessage\<close>. The new message is written into the slot behind the entries in use:
  both strings are copied with \<open>strncpy\<close> up to one byte less than the buffer and the
  last byte of each buffer is set to NUL. The function returns \<open>true\<close> on every path.
\<close>

definition write_slot ::
  "QueuedMessage \<Rightarrow> char list \<Rightarrow> char list \<Rightarrow> bool \<Rightarrow> int \<Rightarrow> millis \<Rightarrow> QueuedMessage" where
  "write_slot msg topic payload retained qos t =
     msg\<lparr>qm_topic := (strncpy (qm_topic msg) topic (TOPIC_SIZE - 1))[TOPIC_SIZE - 1 := NUL],
         qm_payload := (strncpy (qm_payload msg) payload (PAYLOAD_SIZE - 1))[PAYLOAD_SIZE - 1 := NUL],
         qm_retained := retained, qm_qos := qos, qm_timestamp := t, qm_retry_count := 0\<rparr>"

definition queueMessage ::
  "millis \<Rightarrow> char list \<Rightarrow> char list \<Rightarrow> bool \<Rightarrow> int \<Rightarrow> NetworkManager \<Rightarrow> bool \<times> NetworkManager" where
  "queueMessage t topic payload retained qos s =
     (let s1 = (if message_queue_size s \<ge> MAX_QUEUE_SIZE
                then s\<lparr>message_queue := shift_queue 0 (MAX_QUEUE_SIZE - 1) (message_queue s),
                       message_queue_size := MAX_QUEUE_SIZE - 1\<rparr>
                else s);
          k = message_queue_size s1;
          msg = write_slot (message_queue s1 ! k) topic payload retained qos t
      in (True, s1\<lparr>message_queue := (message_queue s1)[k := msg],
                   message_queue_size := k + 1,
                   stats := (stats s1)\<lparr>messages_queued := messages_queued (stats s1) + 1\<rparr>\<rparr>))"

text \<open>
  \<open>processMessageQueue\<close>: one send attempt for the entry in slot 0, when the queue is
  not empty and the session is connected.
\<close>

definition remove_head :: "NetworkManager \<Rightarrow> NetworkManager" where
  "remove_head s = s\<lparr>message_queue := shift_queue 0 (message_queue_size s - 1) (message_queue s),
                     message_queue_size := message_queue_size s - 1\<rparr>"

definition processMessageQueue :: "Env \<Rightarrow> NetworkManager \<Rightarrow> NetworkManager" where
  "processMessageQueue env s =
     (if message_queue_size s = 0 \<or> \<not> isMQTTConnected s then s
      else if publish_result env
      then remove_head (s\<lparr>stats := (stats s)\<lparr>messages_sent := messages_sent (stats s) + 1\<rparr>\<rparr>)
      else
        (let msg = (message_queue s ! 0)\<lparr>qm_retry_count := qm_retry_count (message_queue s ! 0) + 1\<rparr>;
             s1 = s\<lparr>message_queue := (message_queue s)[0 := msg],
                    stats := (stats s)\<lparr>messages_failed := messages_failed (stats s) + 1\<rparr>\<rparr>
         in if qm_retry_count msg \<ge> 3 then remove_head s1 else s1))"

text \<open>The entries in use, oldest first.\<close>

definition queue_contents :: "NetworkManager \<Rightarrow> QueuedMessage list" where
  "queue_contents s = take (message_queue_size s) (message_queue s)"

text \<open>
  \<open>publish\<close>: queue when the session is not connected; otherwise send, count the
  outcome, queue the message when the send failed, and return the result of the send.
\<close>

definition publish ::
  "Env \<Rightarrow> char list \<Rightarrow> char list \<Rightarrow> bool \<Rightarrow> int \<Rightarrow> NetworkManager \<Rightarrow> bool \<times> NetworkManager" where
  "publish env topic payload retained qos s =
     (if \<not> isMQTTConnected s then queueMessage (now env) topic payload retained qos s
      else
        (let result = publish_result env in
         if result
         then (result, s\<lparr>stats := (stats s)\<lparr>messages_sent := messages_sent (stats s) + 1\<rparr>\<rparr>)
         else (result,
               snd (queueMessage (now env) topic payload retained qos
                      (s\<lparr>stats := (stats s)\<lparr>messages_failed := messages_failed (stats s) + 1\<rparr>\<rparr>)))))"

text \<open>
  The representation invariant of the queue: the array has \<open>MAX_QUEUE_SIZE\<close> slots,
  at most that many are in use, and every slot has buffers of the declared sizes.
\<close>

definition queue_wf :: "NetworkManager \<Rightarrow> bool" where
  "queue_wf s \<longleftrightarrow>
     length (message_queue s) = MAX_QUEUE_SIZE \<and> message_queue_size s \<le> MAX_QUEUE_SIZE
     \<and> (\<forall>m \<in> set (message_queue s).
           length (qm_topic m) = TOPIC_SIZE \<and> length (qm_payload m) = PAYLOAD_SIZE)"

text \<open>The arguments of one call of \<open>queueMessage\<close> or \<open>publish\<close>, with the clock reading.\<close>

record Publication =
  pub_at :: millis
  pub_topic :: "char list"
  pub_payload :: "char list"
  pub_retained :: bool
  pub_qos :: int

definition enqueue :: "NetworkManager \<Rightarrow> Publication \<Rightarrow> NetworkManager" where
  "enqueue s r =
     snd (queueMessage (pub_at r) (pub_topic r) (pub_payload r) (pub_retained r) (pub_qos r) s)"

text \<open>The entry that \<open>queueMessage\<close> stores for a call, written over the slot \<open>old\<close>.\<close>

definition new_entry :: "QueuedMessage \<Rightarrow> Publication \<Rightarrow> QueuedMessage" where
  "new_entry old r =
     write_slot old (pub_topic r) (pub_payload r) (pub_retained r) (pub_qos r) (pub_at r)"

section \<open>NetworkManager: the two state machines\<close>

definition setError :: "ConnectionError \<Rightarrow> NetworkManager \<Rightarrow> NetworkManager" where
  "setError error s = (if error \<noteq> ERROR_NONE then s\<lparr>last_error := error\<rparr> else s)"

definition setWiFiState :: "WiFiState \<Rightarrow> ConnectionError \<Rightarrow> NetworkManager \<Rightarrow> NetworkManager" where
  "setWiFiState state error s =
     (if wifi_state s \<noteq> state
      then (let s1 = s\<lparr>wifi_state := state\<rparr>;
                s2 = (if error \<noteq> ERROR_NONE then setError error s1 else s1)
            in if wifi_callback_set s2
               then s2\<lparr>callbacks := callbacks s2 @ [WiFiEvent state error]\<rparr> else s2)
      else s)"

definition setMQTTState :: "MQTTState \<Rightarrow> ConnectionError \<Rightarrow> NetworkManager \<Rightarrow> NetworkManager" where
  "setMQTTState state error s =
     (if mqtt_state s \<noteq> state
      then (let s1 = s\<lparr>mqtt_state := state\<rparr>;
                s2 = (if error \<noteq> ERROR_NONE then setError error s1 else s1)
            in if mqtt_callback_set s2
               then s2\<lparr>callbacks := callbacks s2 @ [MQTTEvent state error]\<rparr> else s2)
      else s)"

fun mapWiFiError :: "wl_status_t \<Rightarrow> ConnectionError" where
  "mapWiFiError WL_NO_SSID_AVAIL = ERROR_WIFI_NO_SSID_AVAIL"
| "mapWiFiError WL_CONNECT_FAILED = ERROR_WIFI_AUTH_FAIL"
| "mapWiFiError WL_CONNECTION_LOST = ERROR_WIFI_CONNECT_FAIL"
| "mapWiFiError WL_DISCONNECTED = ERROR_WIFI_CONNECT_FAIL"
| "mapWiFiError _ = ERROR_NETWORK_TIMEOUT"

definition mapMQTTError :: "int \<Rightarrow> ConnectionError" where
  "mapMQTTError st =
     (if st = - 4 then ERROR_NETWORK_TIMEOUT
      else if st = - 3 then ERROR_MQTT_SERVER_UNAVAILABLE
      else if st = - 2 then ERROR_MQTT_CONNECTION_REFUSED
      else if st = 1 then ERROR_MQTT_PROTOCOL_VERSION
      else if st = 2 then ERROR_MQTT_CLIENT_ID_REJECTED
      else if st = 3 then ERROR_MQTT_SERVER_UNAVAILABLE
      else if st = 4 then ERROR_MQTT_BAD_CREDENTIALS
      else if st = 5 then ERROR_MQTT_NOT_AUTHORIZED
      else ERROR_MQTT_CONNECTION_REFUSED)"

text \<open>\<open>isTimeToRetry\<close>: the \<open>int\<close> interval is converted to \<open>unsigned long\<close>.\<close>

definition isTimeToRetry :: "Env \<Rightarrow> millis \<Rightarrow> int \<Rightarrow> bool" where
  "isTimeToRetry env last_attempt interval \<longleftrightarrow> now env - last_attempt \<ge> word_of_int interval"

definition startWiFiConnection :: "Env \<Rightarrow> NetworkManager \<Rightarrow> bool \<times> NetworkManager" where
  "startWiFiConnection env s =
     (True, setWiFiState WIFI_CONNECTING ERROR_NONE (s\<lparr>wifi_last_attempt := now env\<rparr>))"

definition startMQTTConnection :: "Env \<Rightarrow> NetworkManager \<Rightarrow> bool \<times> NetworkManager" where
  "startMQTTConnection env s =
     (let s1 = s\<lparr>mqtt_last_attempt := now env\<rparr> in
      if connect_result env then (True, setMQTTState MQTT_CONNECTED ERROR_NONE s1)
      else (False, setMQTTState MQTT_RECONNECTING (mapMQTTError (client_state env)) s1))"

definition connectWiFi :: "Env \<Rightarrow> NetworkManager \<Rightarrow> bool \<times> NetworkManager" where
  "connectWiFi env s =
     (if wifi_state s = WIFI_CONNECTED then (True, s)
      else if wifi_state s = WIFI_CONNECTING \<or> wifi_state s = WIFI_RECONNECTING then (False, s)
      else startWiFiConnection env (setWiFiState WIFI_CONNECTING ERROR_NONE s))"

definition connectMQTT :: "Env \<Rightarrow> NetworkManager \<Rightarrow> bool \<times> NetworkManager" where
  "connectMQTT env s =
     (if mqtt_state s = MQTT_CONNECTED then (True, s)
      else if \<not> isWiFiConnected s then (False, s)
      else if mqtt_state s = MQTT_CONNECTING \<or> mqtt_state s = MQTT_RECONNECTING then (False, s)
      else startMQTTConnection env (setMQTTState MQTT_CONNECTING ERROR_NONE s))"

definition updateWiFi :: "Env \<Rightarrow> NetworkManager \<Rightarrow> NetworkManager" where
  "updateWiFi env s =
     (case wifi_state s of
        WIFI_CONNECTING \<Rightarrow>
          if wifi_status env = WL_CONNECTED
          then setWiFiState WIFI_CONNECTED ERROR_NONE
                 (s\<lparr>wifi_connect_time := now env,
                    stats := (stats s)\<lparr>last_connection_time := now env\<rparr>,
                    wifi_retry_count := 0\<rparr>)
          else if now env - wifi_last_attempt s > word_of_int (wifi_timeout_ms (config s))
          then setWiFiState WIFI_RECONNECTING (mapWiFiError (wifi_status env))
                 (s\<lparr>stats := (stats s)\<lparr>wifi_failures := wifi_failures (stats s) + 1\<rparr>\<rparr>)
          else s
      | WIFI_CONNECTED \<Rightarrow>
          if wifi_status env \<noteq> WL_CONNECTED
          then setWiFiState WIFI_RECONNECTING ERROR_NONE
                 (s\<lparr>stats := (stats s)\<lparr>wifi_failures := wifi_failures (stats s) + 1\<rparr>\<rparr>)
          else s
      | WIFI_RECONNECTING \<Rightarrow>
          if isTimeToRetry env (wifi_last_attempt s)
               (calculateBackoffDelay (entropy env) (wifi_retry_interval_ms (config s))
                  (wifi_retry_count s) DEFAULT_MAX_DELAY)
          then if wifi_retry_count s < wifi_max_retries (config s)
               then snd (startWiFiConnection env
                      (s\<lparr>wifi_retry_count := wifi_retry_count s + 1,
                         stats := (stats s)\<lparr>wifi_reconnect_count := wifi_reconnect_count (stats s) + 1\<rparr>\<rparr>))
               else setWiFiState WIFI_FAILED ERROR_WIFI_CONNECT_FAIL s
          else s
      | WIFI_FAILED \<Rightarrow>
          if now env - wifi_last_attempt s > 300000
          then setWiFiState WIFI_RECONNECTING ERROR_NONE (s\<lparr>wifi_retry_count := 0\<rparr>)
          else s
      | _ \<Rightarrow> s)"

definition updateMQTT :: "Env \<Rightarrow> NetworkManager \<Rightarrow> NetworkManager" where
  "updateMQTT env s =
     (if \<not> isWiFiConnected s
      then (if mqtt_state s \<noteq> MQTT_IDLE then setMQTTState MQTT_IDLE ERROR_NONE s else s)
      else
       (case mqtt_state s of
          MQTT_CONNECTING \<Rightarrow>
            if client_connected env
            then setMQTTState MQTT_CONNECTED ERROR_NONE
                   (s\<lparr>mqtt_connect_time := now env, mqtt_retry_count := 0\<rparr>)
            else if now env - mqtt_last_attempt s > word_of_int (mqtt_timeout_ms (config s))
            then setMQTTState MQTT_RECONNECTING (mapMQTTError (client_state env))
                   (s\<lparr>stats := (stats s)\<lparr>mqtt_failures := mqtt_failures (stats s) + 1\<rparr>\<rparr>)
            else s
        | MQTT_CONNECTED \<Rightarrow>
            if \<not> client_connected env
            then setMQTTState MQTT_RECONNECTING ERROR_NONE
                   (s\<lparr>stats := (stats s)\<lparr>mqtt_failures := mqtt_failures (stats s) + 1\<rparr>\<rparr>)
            else s
        | MQTT_RECONNECTING \<Rightarrow>
            if isTimeToRetry env (mqtt_last_attempt s)
                 (calculateBackoffDelay (entropy env) (mqtt_retry_interval_ms (config s))
                    (mqtt_retry_count s) DEFAULT_MAX_DELAY)
            then if mqtt_retry_count s < mqtt_max_retries (config s)
                 then snd (startMQTTConnection env
                        (s\<lparr>mqtt_retry_count := mqtt_retry_count s + 1,
                           stats := (stats s)\<lparr>mqtt_reconnect_count := mqtt_reconnect_count (stats s) + 1\<rparr>\<rparr>))
                 else setMQTTState MQTT_FAILED ERROR_MQTT_SERVER_UNAVAILABLE s
            else s
        | MQTT_FAILED \<Rightarrow>
            if now env - mqtt_last_attempt s > 300000
            then setMQTTState MQTT_RECONNECTING ERROR_NONE (s\<lparr>mqtt_retry_count := 0\<rparr>)
            else s
        | _ \<Rightarrow>
            if mqtt_state s = MQTT_IDLE \<and> isWiFiConnected s
            then snd (connectMQTT env s) else s))"

definition getWiFiRSSI :: "Env \<Rightarrow> NetworkManager \<Rightarrow> int" where
  "getWiFiRSSI env s = (if isWiFiConnected s then wifi_rssi env else - 100)"

definition updateStats :: "Env \<Rightarrow> NetworkManager \<Rightarrow> NetworkManager" where
  "updateStats env s =
     (let st0 = (stats s)\<lparr>total_uptime_ms := now env,
                           last_wifi_rssi := word_of_int (getWiFiRSSI env s)\<rparr>;
          st1 = (if isWiFiConnected s
                 then st0\<lparr>wifi_uptime_ms := wifi_uptime_ms st0 + (now env - wifi_connect_time s)\<rparr>
                 else st0);
          st2 = (if isMQTTConnected s
                 then st1\<lparr>mqtt_uptime_ms := mqtt_uptime_ms st1 + (now env - mqtt_connect_time s)\<rparr>
                 else st1)
      in s\<lparr>stats := st2\<rparr>)"

text \<open>
  \<open>update\<close>. The body of \<open>updateHealthCheck\<close> is not part of the sources (the header
  only declares it), so the health check is the parameter \<open>hc\<close>. The session client's
  \<open>loop()\<close> only hands received messages to the message callback and changes no
  member of the manager.
\<close>

definition feedWatchdog :: "Env \<Rightarrow> NetworkManager \<Rightarrow> NetworkManager" where
  "feedWatchdog env s = (if watchdog_enabled s then s\<lparr>last_watchdog_feed := now env\<rparr> else s)"

definition update ::
  "(NetworkManager \<Rightarrow> NetworkManager) \<Rightarrow> Env \<Rightarrow> NetworkManager \<Rightarrow> NetworkManager" where
  "update hc env s =
     (let s1 = (if watchdog_enabled s then feedWatchdog env s else s);
          s2 = updateWiFi env s1;
          s3 = updateMQTT env s2;
          s4 = processMessageQueue env s3;
          s5 = (if now env - last_health_check s4 > word_of_int (health_check_interval_ms (config s4))
                then (hc s4)\<lparr>last_health_check := now env\<rparr> else s4);
          s6 = updateStats env s5
      in if diagnostics_callback_set s6 \<and> enable_diagnostics (config s6)
         then (if now env - last_diagnostics s6 > 30000
               then s6\<lparr>callbacks := callbacks s6 @ [Diagnostics (stats s6)],
                       last_diagnostics := now env\<rparr>
               else s6)
         else s6)"

text \<open>
  The manager at the point where \<open>update\<close> calls \<open>updateMQTT\<close>: after the watchdog
  feed and \<open>updateWiFi\<close>.
\<close>

definition before_updateMQTT :: "Env \<Rightarrow> NetworkManager \<Rightarrow> NetworkManager" where
  "before_updateMQTT env s =
     updateWiFi env (if watchdog_enabled s then feedWatchdog env s else s)"

section \<open>The sketch's own offline queue\<close>

text \<open>
  \<open>faculty_desk_unit.ino\<close> has a queue of its own, with the same policy on overflow
  and its own drain function. \<open>struct SimpleMessage\<close>, with the prefix \<open>sm_\<close>.
\<close>

record SimpleMessage =
  sm_topic :: "char list"
  sm_payload :: "char list"
  sm_timestamp :: millis
  sm_retry_count :: int
  sm_is_response :: bool

text \<open>The globals \<open>messageQueue[10]\<close>, \<open>queueCount\<close> and the connection flags.\<close>

record Sketch =
  messageQueue :: "SimpleMessage list"
  queueCount :: nat
  systemOnline :: bool
  wifiConnected :: bool
  mqttConnected :: bool

text \<open>
  The answers of the session client during one call of the sketch: \<open>connected()\<close>
  and \<open>state()\<close> as \<open>isMqttReallyConnected\<close> reads them, the result of
  \<open>publish\<close>, and \<open>state()\<close> as read after a failed send.
\<close>

record SketchEnv =
  sk_connected :: bool
  sk_state :: int
  sk_publish_result :: bool
  sk_state_after :: int

definition sketch_empty_slot :: SimpleMessage where
  "sketch_empty_slot = \<lparr>sm_topic = replicate 64 NUL, sm_payload = replicate 512 NUL,
     sm_timestamp = 0, sm_retry_count = 0, sm_is_response = False\<rparr>"

definition initOfflineQueue :: Sketch where
  "initOfflineQueue = \<lparr>messageQueue = replicate 10 sketch_empty_slot, queueCount = 0,
     systemOnline = False, wifiConnected = False, mqttConnected = False\<rparr>"

definition isMqttReallyConnected :: "SketchEnv \<Rightarrow> bool" where
  "isMqttReallyConnected env \<longleftrightarrow> sk_connected env \<and> sk_state env = 0"

text \<open>The sketch's \<open>queueMessage(topic, payload, isResponse)\<close>.\<close>

definition sketch_queueMessage ::
  "millis \<Rightarrow> char list \<Rightarrow> char list \<Rightarrow> bool \<Rightarrow> Sketch \<Rightarrow> bool \<times> Sketch" where
  "sketch_queueMessage t topic payload isResponse s =
     (let s1 = (if queueCount s \<ge> 10
                then s\<lparr>messageQueue := shift_queue 0 9 (messageQueue s), queueCount := 9\<rparr>
                else s);
          k = queueCount s1;
          old = messageQueue s1 ! k;
          msg = old\<lparr>sm_topic := (strncpy (sm_topic old) topic 63)[63 := NUL],
                    sm_payload := (strncpy (sm_payload old) payload 511)[511 := NUL],
                    sm_timestamp := t, sm_retry_count := 0, sm_is_response := isResponse\<rparr>
      in (True, s1\<lparr>messageQueue := (messageQueue s1)[k := msg], queueCount := k + 1\<rparr>))"

definition sketch_remove_head :: "Sketch \<Rightarrow> Sketch" where
  "sketch_remove_head s = s\<lparr>messageQueue := shift_queue 0 (queueCount s - 1) (messageQueue s),
                            queueCount := queueCount s - 1\<rparr>"

text \<open>\<open>processQueuedMessages\<close>: one send attempt for \<open>messageQueue[0]\<close>.\<close>

definition processQueuedMessages :: "SketchEnv \<Rightarrow> Sketch \<Rightarrow> bool \<times> Sketch" where
  "processQueuedMessages env s =
     (if \<not> isMqttReallyConnected env \<or> queueCount s = 0 then (False, s)
      else if sk_publish_result env then (True, sketch_remove_head s)
      else
        (let msg = (messageQueue s ! 0)\<lparr>sm_retry_count := sm_retry_count (messageQueue s ! 0) + 1\<rparr>;
             s1 = s\<lparr>messageQueue := (messageQueue s)[0 := msg]\<rparr>;
             s2 = (if sk_state_after env \<noteq> 0 then s1\<lparr>mqttConnected := False\<rparr> else s1)
         in (False, if sm_retry_count msg > 3 then sketch_remove_head s2 else s2)))"

definition sketch_contents :: "Sketch \<Rightarrow> SimpleMessage list" where
  "sketch_contents s = take (queueCount s) (messageQueue s)"

definition sketch_wf :: "Sketch \<Rightarrow> bool" where
  "sketch_wf s \<longleftrightarrow> length (messageQueue s) = 10 \<and> queueCount s \<le> 10"

section \<open>BooleanPresenceDetector\<close>

text \<open>The constants of \<open>config.h\<close> and of the class.\<close>

definition BLE_SIGNAL_STRENGTH_THRESHOLD :: int where
  "BLE_SIGNAL_STRENGTH_THRESHOLD = - 80"

definition BLE_GRACE_PERIOD_MS :: int where
  "BLE_GRACE_PERIOD_MS = 60000"

definition BLE_RECONNECT_MAX_ATTEMPTS :: int where
  "BLE_RECONNECT_MAX_ATTEMPTS = 12"

definition CONFIRM_SCANS :: int where
  "CONFIRM_SCANS = 2"

definition CONFIRM_ABSENCE_SCANS :: int where
  "CONFIRM_ABSENCE_SCANS = 3"

text \<open>
  The calls out of the detector when the confirmed status changes:
  \<open>publishPresenceUpdate()\<close>, which publishes \<open>getPresence()\<close>, and
  \<open>updateMainDisplay()\<close>. They are recorded in the log \<open>effects\<close>.
\<close>

datatype Effect = PublishPresenceUpdate bool | UpdateMainDisplay

record BooleanPresenceDetector =
  currentPresence :: bool
  lastKnownPresence :: bool
  lastDetectionTime :: millis
  lastStateChange :: millis
  gracePeriodStartTime :: millis
  inGracePeriod :: bool
  gracePeriodAttempts :: int
  consecutiveDetections :: int
  consecutiveMisses :: int
  effects :: "Effect list"

definition detector_init :: BooleanPresenceDetector where
  "detector_init = \<lparr>currentPresence = False, lastKnownPresence = False, lastDetectionTime = 0,
     lastStateChange = 0, gracePeriodStartTime = 0, inGracePeriod = False,
     gracePeriodAttempts = 0, consecutiveDetections = 0, consecutiveMisses = 0, effects = []\<rparr>"

definition getPresence :: "BooleanPresenceDetector \<Rightarrow> bool" where
  "getPresence d = (if inGracePeriod d then lastKnownPresence d else currentPresence d)"

definition updatePresenceStatus ::
  "bool \<Rightarrow> millis \<Rightarrow> BooleanPresenceDetector \<Rightarrow> BooleanPresenceDetector" where
  "updatePresenceStatus newPresence t d =
     (if newPresence \<noteq> currentPresence d
      then (let d1 = d\<lparr>currentPresence := newPresence, lastStateChange := t,
                        consecutiveDetections := 0, consecutiveMisses := 0\<rparr>
            in d1\<lparr>effects := effects d1 @ [PublishPresenceUpdate (getPresence d1), UpdateMainDisplay]\<rparr>)
      else d)"

definition startGracePeriod :: "millis \<Rightarrow> BooleanPresenceDetector \<Rightarrow> BooleanPresenceDetector" where
  "startGracePeriod t d =
     d\<lparr>inGracePeriod := True, gracePeriodStartTime := t, gracePeriodAttempts := 0,
       lastKnownPresence := currentPresence d\<rparr>"

definition endGracePeriod ::
  "bool \<Rightarrow> millis \<Rightarrow> BooleanPresenceDetector \<Rightarrow> BooleanPresenceDetector" where
  "endGracePeriod reconnected t d =
     (let d1 = d\<lparr>inGracePeriod := False, gracePeriodAttempts := 0\<rparr>
      in if reconnected then d1 else updatePresenceStatus False t d1)"

definition updateGracePeriod :: "millis \<Rightarrow> BooleanPresenceDetector \<Rightarrow> BooleanPresenceDetector" where
  "updateGracePeriod t d =
     (let d1 = d\<lparr>gracePeriodAttempts := gracePeriodAttempts d + 1\<rparr>;
          elapsed = t - gracePeriodStartTime d1
      in if elapsed \<ge> word_of_int BLE_GRACE_PERIOD_MS
            \<or> gracePeriodAttempts d1 \<ge> BLE_RECONNECT_MAX_ATTEMPTS
         then endGracePeriod False t d1 else d1)"

text \<open>
  \<open>checkBeacon(beaconFound, rssi)\<close>; \<open>t\<close> is the reading of \<open>millis()\<close>. The counters
  are advanced first, the signal filter comes second.
\<close>

definition checkBeacon ::
  "millis \<Rightarrow> bool \<Rightarrow> int \<Rightarrow> BooleanPresenceDetector \<Rightarrow> BooleanPresenceDetector" where
  "checkBeacon t beaconFound rssi d =
     (if beaconFound
      then (let d1 = d\<lparr>lastDetectionTime := t,
                        consecutiveDetections := consecutiveDetections d + 1,
                        consecutiveMisses := 0\<rparr>
            in if rssi \<noteq> 0 \<and> rssi < BLE_SIGNAL_STRENGTH_THRESHOLD then d1
               else (let d2 = (if inGracePeriod d1 then endGracePeriod True t d1 else d1)
                     in if consecutiveDetections d2 \<ge> CONFIRM_SCANS \<and> \<not> currentPresence d2
                        then updatePresenceStatus True t d2 else d2))
      else (let d1 = d\<lparr>consecutiveMisses := consecutiveMisses d + 1,
                        consecutiveDetections := 0\<rparr>
            in if currentPresence d1 \<and> consecutiveMisses d1 \<ge> CONFIRM_ABSENCE_SCANS
               then (if \<not> inGracePeriod d1 then startGracePeriod t d1
                     else updateGracePeriod t d1)
               else if \<not> currentPresence d1 then d1\<lparr>inGracePeriod := False\<rparr>
               else d1))"

text \<open>One scan outcome: the clock reading, whether the beacon was found, and the RSSI.\<close>

record Scan =
  at :: millis
  found :: bool
  rssi_of :: int

definition observe :: "BooleanPresenceDetector \<Rightarrow> Scan \<Rightarrow> BooleanPresenceDetector" where
  "observe d e = checkBeacon (at e) (found e) (rssi_of e) d"

text \<open>The detector after a sequence of scan outcomes, from the state of a fresh object.\<close>

definition run_detector :: "Scan list \<Rightarrow> BooleanPresenceDetector" where
  "run_detector es = foldl observe detector_init es"

text \<open>The length of the run of found (or of missed) scans that ends the sequence.\<close>

definition found_run :: "Scan list \<Rightarrow> nat" where
  "found_run es = length (takeWhile found (rev es))"

definition miss_run :: "Scan list \<Rightarrow> nat" where
  "miss_run es = length (takeWhile (\<lambda>e. \<not> found e) (rev es))"

text \<open>
  What holds of the detector after any sequence of scans: each counter is at most the
  length of the current run of that outcome, and a grace period is only pending while
  presence is confirmed.
\<close>

definition det_inv :: "nat \<Rightarrow> nat \<Rightarrow> BooleanPresenceDetector \<Rightarrow> bool" where
  "det_inv f m d \<longleftrightarrow>
     consecutiveDetections d \<le> int f \<and> consecutiveMisses d \<le> int m
     \<and> (inGracePeriod d \<longrightarrow> currentPresence d)"

text \<open>
  A miss scan \<open>e\<close> ends a pending grace period of \<open>d\<close>: it is at least the third
  consecutive miss, so that \<open>checkBeacon\<close> calls \<open>updateGracePeriod\<close>, and there the
  window has elapsed or the attempt counter reaches its maximum.
\<close>

definition grace_expires :: "BooleanPresenceDetector \<Rightarrow> Scan \<Rightarrow> bool" where
  "grace_expires d e \<longleftrightarrow>
     consecutiveMisses d + 1 \<ge> CONFIRM_ABSENCE_SCANS
     \<and> (at e - gracePeriodStartTime d \<ge> word_of_int BLE_GRACE_PERIOD_MS
        \<or> gracePeriodAttempts d + 1 \<ge> BLE_RECONNECT_MAX_ATTEMPTS)"

text \<open>The condition of the signal filter in \<open>checkBeacon\<close>.\<close>

definition weak_signal :: "Scan \<Rightarrow> bool" where
  "weak_signal e \<longleftrightarrow> rssi_of e \<noteq> 0 \<and> rssi_of e < BLE_SIGNAL_STRENGTH_THRESHOLD"

section \<open>AdaptiveBLEScanner\<close>

datatype ScanMode = SEARCHING | MONITORING | VERIFYING

definition BLE_SCAN_INTERVAL_SEARCHING :: millis where
  "BLE_SCAN_INTERVAL_SEARCHING = 2000"

definition BLE_SCAN_INTERVAL_MONITORING :: millis where
  "BLE_SCAN_INTERVAL_MONITORING = 8000"

definition BLE_SCAN_INTERVAL_VERIFICATION :: millis where
  "BLE_SCAN_INTERVAL_VERIFICATION = 1000"

definition BLE_RECONNECT_ATTEMPT_INTERVAL :: millis where
  "BLE_RECONNECT_ATTEMPT_INTERVAL = 5000"

definition PRESENCE_CONFIRM_TIME :: millis where
  "PRESENCE_CONFIRM_TIME = 6000"

definition BLE_STATS_REPORT_INTERVAL :: millis where
  "BLE_STATS_REPORT_INTERVAL = 60000"

record ScanStats =
  totalScans :: u32
  successfulDetections :: u32
  timeInSearching :: u32
  timeInMonitoring :: u32
  timeInVerifying :: u32
  lastModeStart :: u32

text \<open>
  The members of \<open>AdaptiveBLEScanner\<close>; its two counters carry the prefix \<open>scan_\<close>
  because the detector has counters of the same names. \<open>presenceDetectorPtr\<close> is
  whether the pointer is set; it points to the one global detector, the field
  \<open>detector\<close>.
\<close>

record AdaptiveBLEScanner =
  currentMode :: ScanMode
  lastScanTime :: millis
  modeChangeTime :: millis
  statsReportTime :: millis
  scan_consecutiveDetections :: int
  scan_consecutiveMisses :: int
  presenceDetectorPtr :: bool
  scan_stats :: ScanStats
  detector :: BooleanPresenceDetector

text \<open>The fresh object after \<open>init(&presenceDetector)\<close> at clock reading \<open>t\<close>.\<close>

definition scanner_init :: "millis \<Rightarrow> AdaptiveBLEScanner" where
  "scanner_init t = \<lparr>currentMode = SEARCHING, lastScanTime = 0, modeChangeTime = t,
     statsReportTime = t, scan_consecutiveDetections = 0, scan_consecutiveMisses = 0,
     presenceDetectorPtr = True,
     scan_stats = \<lparr>totalScans = 0, successfulDetections = 0, timeInSearching = 0,
       timeInMonitoring = 0, timeInVerifying = 0, lastModeStart = t\<rparr>,
     detector = detector_init\<rparr>"

definition getCurrentScanInterval :: "AdaptiveBLEScanner \<Rightarrow> millis" where
  "getCurrentScanInterval sc =
     (if presenceDetectorPtr sc \<and> inGracePeriod (detector sc) then BLE_RECONNECT_ATTEMPT_INTERVAL
      else (case currentMode sc of
              SEARCHING \<Rightarrow> BLE_SCAN_INTERVAL_SEARCHING
            | MONITORING \<Rightarrow> BLE_SCAN_INTERVAL_MONITORING
            | VERIFYING \<Rightarrow> BLE_SCAN_INTERVAL_VERIFICATION))"

text \<open>The scanner's \<open>updateStats(now)\<close>; \<open>reportStats\<close> only prints.\<close>

definition scanner_updateStats :: "millis \<Rightarrow> AdaptiveBLEScanner \<Rightarrow> AdaptiveBLEScanner" where
  "scanner_updateStats t sc =
     (let st = scan_stats sc;
          timeInMode = t - lastModeStart st;
          st1 = (case currentMode sc of
                   SEARCHING \<Rightarrow> st\<lparr>timeInSearching := timeInSearching st + timeInMode\<rparr>
                 | MONITORING \<Rightarrow> st\<lparr>timeInMonitoring := timeInMonitoring st + timeInMode\<rparr>
                 | VERIFYING \<Rightarrow> st\<lparr>timeInVerifying := timeInVerifying st + timeInMode\<rparr>);
          sc1 = sc\<lparr>scan_stats := st1\<lparr>lastModeStart := t\<rparr>\<rparr>
      in if t - statsReportTime sc1 > BLE_STATS_REPORT_INTERVAL
         then sc1\<lparr>statsReportTime := t\<rparr> else sc1)"

text \<open>The mode that \<open>updateScanMode\<close> chooses (its local \<open>newMode\<close>).\<close>

definition newMode :: "millis \<Rightarrow> AdaptiveBLEScanner \<Rightarrow> ScanMode" where
  "newMode t sc =
     (case currentMode sc of
        SEARCHING \<Rightarrow> if scan_consecutiveDetections sc \<ge> 2 then VERIFYING else SEARCHING
      | MONITORING \<Rightarrow> if scan_consecutiveMisses sc \<ge> 2 then VERIFYING else MONITORING
      | VERIFYING \<Rightarrow>
          if t - modeChangeTime sc > PRESENCE_CONFIRM_TIME
          then (if scan_consecutiveDetections sc > scan_consecutiveMisses sc
                then MONITORING else SEARCHING)
          else VERIFYING)"

definition updateScanMode :: "bool \<Rightarrow> millis \<Rightarrow> AdaptiveBLEScanner \<Rightarrow> AdaptiveBLEScanner" where
  "updateScanMode beaconFound t sc =
     (let m = newMode t sc
      in if m \<noteq> currentMode sc
         then (scanner_updateStats t sc)\<lparr>currentMode := m, modeChangeTime := t,
                 scan_consecutiveDetections := 0, scan_consecutiveMisses := 0\<rparr>
         else sc)"

text \<open>
  One scan as the scheduler sees it: the clock reading at the start of \<open>update\<close>, the
  result of \<open>performScan\<close>, and the clock reading inside \<open>checkBeacon\<close> after the scan.
\<close>

record Tick =
  tick_now :: millis
  beaconDetected :: bool
  tick_after_scan :: millis

text \<open>
  Counting the scan result, the first half of the scanning part of \<open>update\<close>.
\<close>

definition count_scan :: "Tick \<Rightarrow> AdaptiveBLEScanner \<Rightarrow> AdaptiveBLEScanner" where
  "count_scan k sc =
     (let sc1 = scanner_updateStats (tick_now k) sc;
          sc2 = sc1\<lparr>lastScanTime := tick_now k,
                    scan_stats := (scan_stats sc1)\<lparr>totalScans := totalScans (scan_stats sc1) + 1\<rparr>\<rparr>
      in if beaconDetected k
         then sc2\<lparr>scan_stats := (scan_stats sc2)\<lparr>successfulDetections :=
                                   successfulDetections (scan_stats sc2) + 1\<rparr>,
                  scan_consecutiveDetections := scan_consecutiveDetections sc2 + 1,
                  scan_consecutiveMisses := 0\<rparr>
         else sc2\<lparr>scan_consecutiveMisses := scan_consecutiveMisses sc2 + 1,
                  scan_consecutiveDetections := 0\<rparr>)"

text \<open>
  The scanner's \<open>update()\<close>: nothing without a detector or before the interval has
  elapsed; otherwise count the scan, switch the mode, and pass the result to the
  detector's \<open>checkBeacon\<close> (with the default \<open>rssi = 0\<close>).
\<close>

definition scanner_update :: "Tick \<Rightarrow> AdaptiveBLEScanner \<Rightarrow> AdaptiveBLEScanner" where
  "scanner_update k sc =
     (if \<not> presenceDetectorPtr sc then sc
      else if tick_now k - lastScanTime sc < getCurrentScanInterval sc then sc
      else (let sc1 = updateScanMode (beaconDetected k) (tick_now k) (count_scan k sc)
            in sc1\<lparr>detector := checkBeacon (tick_after_scan k) (beaconDetected k) 0 (detector sc1)\<rparr>))"

text \<open>Whether \<open>update()\<close> scans at this tick.\<close>

definition scans :: "Tick \<Rightarrow> AdaptiveBLEScanner \<Rightarrow> bool" where
  "scans k sc \<longleftrightarrow>
     presenceDetectorPtr sc \<and> \<not> tick_now k - lastScanTime sc < getCurrentScanInterval sc"

text \<open>
  The scanner after a sequence of ticks from the fresh object, together with the
  outcomes of the scans it has performed, oldest first.
\<close>

definition run_scanner_hist :: "millis \<Rightarrow> Tick list \<Rightarrow> AdaptiveBLEScanner \<times> bool list" where
  "run_scanner_hist t0 ks =
     foldl (\<lambda>(sc, h) k. (scanner_update k sc, if scans k sc then h @ [beaconDetected k] else h))
       (scanner_init t0, []) ks"

definition run_scanner :: "millis \<Rightarrow> Tick list \<Rightarrow> AdaptiveBLEScanner" where
  "run_scanner t0 ks = fst (run_scanner_hist t0 ks)"

definition scan_outcomes :: "millis \<Rightarrow> Tick list \<Rightarrow> bool list" where
  "scan_outcomes t0 ks = snd (run_scanner_hist t0 ks)"

text \<open>The length of the run of detections (or of misses) that ends a list of outcomes.\<close>

definition detections_run :: "bool list \<Rightarrow> nat" where
  "detections_run h = length (takeWhile (\<lambda>b. b) (rev h))"

definition misses_run :: "bool list \<Rightarrow> nat" where
  "misses_run h = length (takeWhile (\<lambda>b. \<not> b) (rev h))"

text \<open>
  What holds of the two counters of the scanner between scans: they are not negative,
  and while Searching (Monitoring) the detection (miss) counter is the length of the
  current run of detections (misses) and is below 2.
\<close>

definition scanner_inv :: "AdaptiveBLEScanner \<Rightarrow> bool list \<Rightarrow> bool" where
  "scanner_inv sc h \<longleftrightarrow>
     0 \<le> scan_consecutiveDetections sc \<and> 0 \<le> scan_consecutiveMisses sc
     \<and> (currentMode sc = SEARCHING \<longrightarrow>
          scan_consecutiveDetections sc = int (detections_run h) \<and> scan_consecutiveDetections sc \<le> 1)
     \<and> (currentMode sc = MONITORING \<longrightarrow>
          scan_consecutiveMisses sc = int (misses_run h) \<and> scan_consecutiveMisses sc \<le> 1)"

section \<open>Sample inputs\<close>

text \<open>
  Concrete inputs for the evaluations below: the tuning values of \<open>config_robust.h\<close>,
  a status publication, driver answers with a failing and with a succeeding send, a fully
  connected manager with an empty queue and with one queued message, and the same for the
  sketch.
\<close>

definition cfg0 :: NetworkConfig where
  "cfg0 = \<lparr>wifi_timeout_ms = 30000, wifi_retry_interval_ms = 10000, wifi_max_retries = 5,
     mqtt_timeout_ms = 15000, mqtt_retry_interval_ms = 8000, mqtt_max_retries = 3,
     enable_diagnostics = True, health_check_interval_ms = 30000\<rparr>"

definition pub0 :: Publication where
  "pub0 = \<lparr>pub_at = 7, pub_topic = ''status/1'', pub_payload = ''{}'', pub_retained = True, pub_qos = 0\<rparr>"

definition env_fail :: Env where
  "env_fail = \<lparr>now = 9000, wifi_status = WL_CONNECTED, client_connected = True,
     connect_result = True, client_state = 0, publish_result = False, wifi_rssi = - 60,
     entropy = 0\<rparr>"

definition env_ok :: Env where
  "env_ok = env_fail\<lparr>publish_result := True\<rparr>"

definition nm_online :: NetworkManager where
  "nm_online = (NetworkManager_init cfg0)\<lparr>wifi_state := WIFI_CONNECTED, mqtt_state := MQTT_CONNECTED\<rparr>"

definition nm_one :: NetworkManager where
  "nm_one = enqueue nm_online pub0"

definition senv_fail :: SketchEnv where
  "senv_fail = \<lparr>sk_connected = True, sk_state = 0, sk_publish_result = False,
     sk_state_after = 0\<rparr>"

definition sketch_one :: Sketch where
  "sketch_one = snd (sketch_queueMessage 7 ''status/1'' ''{}'' False initOfflineQueue)"

text \<open>The link driver reports that the link is gone.\<close>

definition env_link_lost :: Env where
  "env_link_lost = env_fail\<lparr>wifi_status := WL_DISCONNECTED, client_connected := False\<rparr>"

text \<open>
  Scan outcomes as the scheduler passes them (no RSSI): an arrival, the three misses that
  start a grace period at clock reading 13000, and eleven more misses five seconds apart.
\<close>

definition scan_found :: "millis \<Rightarrow> Scan" where
  "scan_found t = \<lparr>at = t, found = True, rssi_of = 0\<rparr>"

definition scan_miss :: "millis \<Rightarrow> Scan" where
  "scan_miss t = \<lparr>at = t, found = False, rssi_of = 0\<rparr>"

definition arrival :: "Scan list" where
  "arrival = [scan_found 1000, scan_found 3000]"

definition grace_started :: "Scan list" where
  "grace_started = arrival @ [scan_miss 5000, scan_miss 7000, scan_miss 13000]"

definition grace_trace :: "Scan list" where
  "grace_trace = grace_started @ map scan_miss
     [16000, 21000, 26000, 31000, 36000, 41000, 46000, 51000, 56000, 61000, 66000]"

text \<open>
  Ticks of the scheduler, each with a scan of one second: up to the first detection, up
  to the Verifying mode, and up to the first miss in the Monitoring mode.
\<close>

definition tick :: "millis \<Rightarrow> bool \<Rightarrow> Tick" where
  "tick t b = \<lparr>tick_now = t, beaconDetected = b, tick_after_scan = t + 1000\<rparr>"

definition ticks_searching :: "Tick list" where
  "ticks_searching = [tick 2000 True]"

definition ticks_verifying :: "Tick list" where
  "ticks_verifying = ticks_searching @ [tick 7000 True, tick 7500 True, tick 8000 True]"

definition ticks_monitoring :: "Tick list" where
  "ticks_monitoring = ticks_verifying @ [tick 14000 True, tick 22000 False]"

section \<open>Properties of the reconnect backoff\<close>

lemma random_range_bounds:
  assumes "lo < hi"
  shows "lo \<le> random_range e lo hi \<and> random_range e lo hi < hi"
proof -
  define k where "k = int e mod (hi - lo)"
  have "0 < hi - lo" using assms by simp
  then have "0 \<le> k" "k < hi - lo"
    unfolding k_def by (rule pos_mod_sign, rule pos_mod_bound)
  moreover have "random_range e lo hi = lo + k"
    using assms by (simp add: random_range_def k_def)
  ultimately show ?thesis by linarith
qed

lemma c_div_nonneg: "0 \<le> a \<Longrightarrow> 0 < b \<Longrightarrow> c_div a b = a div b"
  by (cases "a = 0") (simp_all add: c_div_def)

lemma capped_delay_lower:
  assumes "0 < b" "b \<le> m"
  shows "b \<le> capped_delay b r m"
proof -
  have "(1::int) \<le> 2 ^ nat (min r 6)" by simp
  then have "b * 1 \<le> b * 2 ^ nat (min r 6)"
    using assms(1) by (intro mult_left_mono) simp_all
  then show ?thesis using assms(2) by (simp add: capped_delay_def)
qed

lemma capped_delay_upper: "capped_delay b r m \<le> m"
  by (simp add: capped_delay_def)

lemma capped_delay_mono:
  assumes "0 < b" "r \<le> r'"
  shows "capped_delay b r m \<le> capped_delay b r' m"
proof -
  have "nat (min r 6) \<le> nat (min r' 6)" using assms(2) by simp
  then have "(2::int) ^ nat (min r 6) \<le> 2 ^ nat (min r' 6)"
    by (intro power_increasing) simp_all
  then have "b * 2 ^ nat (min r 6) \<le> b * 2 ^ nat (min r' 6)"
    using assms(1) by (intro mult_left_mono) simp_all
  then show ?thesis by (simp add: capped_delay_def min_le_iff_disj)
qed

lemma capped_delay_beyond_cap:
  assumes "6 \<le> r"
  shows "capped_delay b r m = min (64 * b) m"
proof -
  have "min r 6 = 6" using assms by simp
  then show ?thesis by (simp add: capped_delay_def mult.commute)
qed

lemma backoff_jitter_window:
  assumes "0 < b" "b \<le> m"
  shows "\<bar>calculateBackoffDelay e b r m - capped_delay b r m\<bar> \<le> capped_delay b r m div 10"
    and "b \<le> calculateBackoffDelay e b r m"
proof -
  let ?d = "capped_delay b r m"
  have d: "b \<le> ?d" using assms by (rule capped_delay_lower)
  then have d0: "0 \<le> ?d * 10" using assms(1) by simp
  have j: "c_div (?d * 10) 100 = ?d div 10"
    using d0 by (simp add: c_div_nonneg)
  have j0: "0 \<le> ?d div 10" using d assms(1) by simp
  then have "- (?d div 10) < ?d div 10 + 1" by simp
  from random_range_bounds [OF this, of e]
  have rb: "- (?d div 10) \<le> random_range e (- (?d div 10)) (?d div 10 + 1)"
           "random_range e (- (?d div 10)) (?d div 10 + 1) \<le> ?d div 10"
    by simp_all
  have eq: "calculateBackoffDelay e b r m
              = max (?d + random_range e (- (?d div 10)) (?d div 10 + 1)) b"
    by (simp add: calculateBackoffDelay_def Let_def j)
  show "\<bar>calculateBackoffDelay e b r m - ?d\<bar> \<le> ?d div 10"
    unfolding eq using rb d j0 by (simp add: max_def abs_le_iff)
  show "b \<le> calculateBackoffDelay e b r m"
    unfolding eq by simp
qed

text \<open>
  Claim C1, as the code has it. For \<open>0 < b \<le> m\<close> and \<open>r \<ge> 0\<close> inside the 32-bit
  range, and every jitter draw: the delay before jitter, \<open>min (b * 2 ^ min r 6) m\<close>, lies
  in \<open>[b, m]\<close>, is non-decreasing in the retry count and equals \<open>min (64 * b) m\<close> (which
  is \<open>m\<close> as soon as \<open>64 * b \<ge> m\<close>) for every retry count from the cap exponent 6 on.
  The returned delay is that value moved by at most a tenth of it and floored at \<open>b\<close>;
  it is at least \<open>b\<close> and at most \<open>m + m div 10\<close>, so it may exceed \<open>m\<close>.
\<close>

theorem C1_backoff_bounds:
  assumes "0 < b" and "b \<le> m" and "0 \<le> r" and "backoff_in_range b m"
  shows "b \<le> capped_delay b r m \<and> capped_delay b r m \<le> m
       \<and> (\<forall>r'. r \<le> r' \<longrightarrow> capped_delay b r m \<le> capped_delay b r' m)
       \<and> (6 \<le> r \<longrightarrow> capped_delay b r m = min (64 * b) m)
       \<and> (6 \<le> r \<and> m \<le> 64 * b \<longrightarrow> capped_delay b r m = m)
       \<and> \<bar>calculateBackoffDelay e b r m - capped_delay b r m\<bar> \<le> capped_delay b r m div 10
       \<and> b \<le> calculateBackoffDelay e b r m
       \<and> calculateBackoffDelay e b r m \<le> m + m div 10"
proof -
  let ?d = "capped_delay b r m"
  have lo: "b \<le> ?d" using assms(1,2) by (rule capped_delay_lower)
  have hi: "?d \<le> m" by (rule capped_delay_upper)
  have mono: "\<forall>r'. r \<le> r' \<longrightarrow> ?d \<le> capped_delay b r' m"
    using assms(1) by (simp add: capped_delay_mono)
  have cap: "6 \<le> r \<longrightarrow> ?d = min (64 * b) m"
    by (simp add: capped_delay_beyond_cap)
  have cap': "6 \<le> r \<and> m \<le> 64 * b \<longrightarrow> ?d = m"
    by (simp add: capped_delay_beyond_cap)
  have win: "\<bar>calculateBackoffDelay e b r m - ?d\<bar> \<le> ?d div 10"
    using assms(1,2) by (rule backoff_jitter_window(1))
  have fl: "b \<le> calculateBackoffDelay e b r m"
    using assms(1,2) by (rule backoff_jitter_window(2))
  have "?d div 10 \<le> m div 10" using hi by (intro zdiv_mono1) simp_all
  then have up: "calculateBackoffDelay e b r m \<le> m + m div 10"
    using win hi by (simp add: abs_le_iff)
  show ?thesis using lo hi mono cap cap' win fl up by blast
qed

theorem C1_backoff_bounds_witness:
  "(0::int) < 8000 \<and> (8000::int) \<le> 60000 \<and> (0::int) \<le> 2 \<and> backoff_in_range 8000 60000
   \<and> capped_delay 8000 2 60000 = 32000
   \<and> calculateBackoffDelay 0 8000 2 60000 = 28800
   \<and> calculateBackoffDelay 0 8000 2 60000 \<le> 60000 + 60000 div 10"
proof -
  have h: "(0::int) < 8000" "(8000::int) \<le> 60000" "(0::int) \<le> 2" "backoff_in_range 8000 60000"
    by (simp_all add: backoff_in_range_def INT_MAX_def)
  have v: "capped_delay 8000 2 60000 = 32000"
    by (simp add: capped_delay_def)
  have w: "calculateBackoffDelay 0 8000 2 60000 = 28800"
    by (simp add: calculateBackoffDelay_def v c_div_def random_range_def)
  from C1_backoff_bounds [OF h, of 0] h v w show ?thesis by simp
qed

text \<open>
  Claim C1 as stated fails: with base interval 1000, maximum 60000, retry count 6 and
  the largest jitter draw, the returned delay is 66000, above the maximum.
\<close>

theorem C1_counterexample:
  "calculateBackoffDelay 12000 1000 6 60000 = 66000
   \<and> \<not> calculateBackoffDelay 12000 1000 6 60000 \<le> 60000"
  by (simp add: calculateBackoffDelay_def capped_delay_def c_div_def random_range_def)

section \<open>Properties of the offline message queue\<close>

lemma length_shift_queue [simp]: "length (shift_queue i n q) = length q"
proof (induction i n q rule: shift_queue.induct)
  case (1 i n q)
  show ?case
  proof (cases "i < n")
    case True
    have "shift_queue i n q = shift_queue (Suc i) n (q[i := q ! Suc i])"
      using True by (subst shift_queue.simps) simp
    with 1 True show ?thesis by simp
  next
    case False
    then show ?thesis by (subst shift_queue.simps) simp
  qed
qed

lemma shift_queue_nth:
  "n < length q \<Longrightarrow> j < length q \<Longrightarrow>
   shift_queue i n q ! j = (if i \<le> j \<and> j < n then q ! Suc j else q ! j)"
proof (induction i n q rule: shift_queue.induct)
  case (1 i n q)
  show ?case
  proof (cases "i < n")
    case True
    have "shift_queue i n q = shift_queue (Suc i) n (q[i := q ! Suc i])"
      using True by (subst shift_queue.simps) simp
    with 1 True show ?thesis by (auto simp: nth_list_update)
  next
    case False
    then have "shift_queue i n q = q" by (subst shift_queue.simps) simp
    with False show ?thesis by auto
  qed
qed

lemma take_shift_queue:
  assumes "n < length q"
  shows "take n (shift_queue 0 n q) = take n (tl q)"
proof (rule nth_equalityI)
  show "length (take n (shift_queue 0 n q)) = length (take n (tl q))"
    using assms by simp
next
  fix j assume "j < length (take n (shift_queue 0 n q))"
  then have j: "j < n" by simp
  then have "shift_queue 0 n q ! j = q ! Suc j"
    using assms by (simp add: shift_queue_nth)
  moreover have "tl q ! j = q ! Suc j"
    using j assms by (simp add: nth_tl)
  ultimately show "take n (shift_queue 0 n q) ! j = take n (tl q) ! j"
    using j by simp
qed

lemma shift_queue_last:
  "n < length q \<Longrightarrow> shift_queue 0 n q ! n = q ! n"
  by (simp add: shift_queue_nth)

lemma set_shift_queue: "n < length q \<Longrightarrow> set (shift_queue 0 n q) \<subseteq> set q"
proof
  fix x assume n: "n < length q" and "x \<in> set (shift_queue 0 n q)"
  then obtain j where j: "j < length q" "shift_queue 0 n q ! j = x"
    by (auto simp: in_set_conv_nth)
  then show "x \<in> set q" using n
    by (auto simp: shift_queue_nth split: if_splits)
qed


lemma length_strncpy:
  "n \<le> length dest \<Longrightarrow> length (strncpy dest src n) = length dest"
  by (simp add: strncpy_def)

lemma write_slot_lengths:
  assumes "length (qm_topic old) = TOPIC_SIZE" "length (qm_payload old) = PAYLOAD_SIZE"
  shows "length (qm_topic (write_slot old tp pl r q t)) = TOPIC_SIZE"
    and "length (qm_payload (write_slot old tp pl r q t)) = PAYLOAD_SIZE"
  using assms by (simp_all add: write_slot_def length_strncpy)

lemma queueMessage_size:
  assumes "queue_wf s"
  shows "message_queue_size (snd (queueMessage t tp pl r q s))
           = (if message_queue_size s = MAX_QUEUE_SIZE then MAX_QUEUE_SIZE
              else message_queue_size s + 1)"
  using assms by (simp add: queueMessage_def queue_wf_def Let_def MAX_QUEUE_SIZE_def)

lemma queueMessage_contents:
  assumes "queue_wf s"
  shows "queue_contents (snd (queueMessage t tp pl r q s))
           = (if message_queue_size s = MAX_QUEUE_SIZE then tl (queue_contents s)
              else queue_contents s)
             @ [write_slot (message_queue s ! (if message_queue_size s = MAX_QUEUE_SIZE
                                               then MAX_QUEUE_SIZE - 1 else message_queue_size s))
                  tp pl r q t]"
proof (cases "message_queue_size s = MAX_QUEUE_SIZE")
  case True
  let ?q = "message_queue s"
  have len: "length ?q = 10" using assms by (simp add: queue_wf_def MAX_QUEUE_SIZE_def)
  let ?q1 = "shift_queue 0 9 ?q"
  let ?m = "write_slot (?q1 ! 9) tp pl r q t"
  have c: "queue_contents (snd (queueMessage t tp pl r q s)) = take 10 (?q1[9 := ?m])"
    using True by (simp add: queueMessage_def queue_contents_def Let_def MAX_QUEUE_SIZE_def)
  have "?q1[9 := ?m] = take 9 ?q1 @ ?m # drop 10 ?q1"
    using len by (simp add: upd_conv_take_nth_drop)
  then have "take 10 (?q1[9 := ?m]) = take 9 ?q1 @ [?m]" using len by simp
  also have "take 9 ?q1 = take 9 (tl ?q)" using len by (simp add: take_shift_queue)
  also have "take 9 (tl ?q) = tl (take 10 ?q)" by (simp add: tl_take)
  finally have "take 10 (?q1[9 := ?m]) = tl (take 10 ?q) @ [?m]" .
  moreover have "?q1 ! 9 = ?q ! 9" using len by (simp add: shift_queue_last)
  ultimately show ?thesis using c True
    by (simp add: queue_contents_def MAX_QUEUE_SIZE_def)
next
  case False
  let ?q = "message_queue s"
  let ?k = "message_queue_size s"
  have k: "?k < length ?q" "?k < MAX_QUEUE_SIZE"
    using assms False by (simp_all add: queue_wf_def)
  let ?m = "write_slot (?q ! ?k) tp pl r q t"
  have c: "queue_contents (snd (queueMessage t tp pl r q s)) = take (Suc ?k) (?q[?k := ?m])"
    using k by (simp add: queueMessage_def queue_contents_def Let_def)
  have "take (Suc ?k) (?q[?k := ?m]) = take ?k (?q[?k := ?m]) @ [(?q[?k := ?m]) ! ?k]"
    using k by (simp add: take_Suc_conv_app_nth)
  also have "\<dots> = take ?k ?q @ [?m]" using k by simp
  finally show ?thesis using c False by (simp add: queue_contents_def)
qed

lemma queueMessage_wf:
  assumes "queue_wf s"
  shows "queue_wf (snd (queueMessage t tp pl r q s))"
proof -
  let ?q = "message_queue s"
  have len: "length ?q = MAX_QUEUE_SIZE" and sz: "message_queue_size s \<le> MAX_QUEUE_SIZE"
    and buf: "\<And>m. m \<in> set ?q \<Longrightarrow> length (qm_topic m) = TOPIC_SIZE \<and> length (qm_payload m) = PAYLOAD_SIZE"
    using assms by (simp_all add: queue_wf_def)
  let ?s' = "snd (queueMessage t tp pl r q s)"
  let ?k = "if message_queue_size s = MAX_QUEUE_SIZE then MAX_QUEUE_SIZE - 1 else message_queue_size s"
  let ?q1 = "if message_queue_size s = MAX_QUEUE_SIZE then shift_queue 0 (MAX_QUEUE_SIZE - 1) ?q else ?q"
  let ?m = "write_slot (?q1 ! ?k) tp pl r q t"
  have q': "message_queue ?s' = ?q1[?k := ?m]"
    using sz by (auto simp: queueMessage_def Let_def)
  have k: "?k < length ?q" using len sz by (auto simp: MAX_QUEUE_SIZE_def)
  have sub: "set ?q1 \<subseteq> set ?q"
    using len by (auto simp: MAX_QUEUE_SIZE_def dest: set_shift_queue [THEN subsetD, rotated])
  have "?q1 ! ?k \<in> set ?q1" using k by (auto simp: MAX_QUEUE_SIZE_def)
  then have old: "length (qm_topic (?q1 ! ?k)) = TOPIC_SIZE" "length (qm_payload (?q1 ! ?k)) = PAYLOAD_SIZE"
    using sub buf by blast+
  have m: "length (qm_topic ?m) = TOPIC_SIZE \<and> length (qm_payload ?m) = PAYLOAD_SIZE"
    using write_slot_lengths [OF old] by simp
  have "\<And>x. x \<in> set (?q1[?k := ?m]) \<Longrightarrow> length (qm_topic x) = TOPIC_SIZE \<and> length (qm_payload x) = PAYLOAD_SIZE"
  proof -
    fix x assume "x \<in> set (?q1[?k := ?m])"
    then have "x = ?m \<or> x \<in> set ?q1" using set_update_subset_insert by fastforce
    then show "length (qm_topic x) = TOPIC_SIZE \<and> length (qm_payload x) = PAYLOAD_SIZE"
      using m sub buf by blast
  qed
  moreover have "length (message_queue ?s') = MAX_QUEUE_SIZE" using q' len by auto
  moreover have "message_queue_size ?s' \<le> MAX_QUEUE_SIZE"
    using queueMessage_size [OF assms] sz by auto
  ultimately show ?thesis unfolding queue_wf_def q' by blast
qed

lemma init_wf: "queue_wf (NetworkManager_init cfg)"
  by (simp add: queue_wf_def NetworkManager_init_def empty_slot_def)

lemma enqueue_wf: "queue_wf s \<Longrightarrow> queue_wf (enqueue s r)"
  by (simp add: enqueue_def queueMessage_wf)

lemma enqueue_all_wf: "queue_wf s \<Longrightarrow> queue_wf (foldl enqueue s rs)"
  by (induction rs arbitrary: s) (simp_all add: enqueue_wf)

lemma enqueue_size:
  "queue_wf s \<Longrightarrow> message_queue_size (enqueue s r)
     = (if message_queue_size s = MAX_QUEUE_SIZE then MAX_QUEUE_SIZE else message_queue_size s + 1)"
  unfolding enqueue_def by (rule queueMessage_size)

lemma enqueue_all_size:
  "message_queue_size (foldl enqueue (NetworkManager_init cfg) rs) = min (length rs) MAX_QUEUE_SIZE"
proof (induction rs rule: rev_induct)
  case Nil
  show ?case by (simp add: NetworkManager_init_def)
next
  case (snoc r rs)
  have wf: "queue_wf (foldl enqueue (NetworkManager_init cfg) rs)"
    by (rule enqueue_all_wf [OF init_wf])
  have "message_queue_size (foldl enqueue (NetworkManager_init cfg) (rs @ [r]))
          = message_queue_size (enqueue (foldl enqueue (NetworkManager_init cfg) rs) r)"
    by simp
  also have "\<dots> = (if min (length rs) MAX_QUEUE_SIZE = MAX_QUEUE_SIZE then MAX_QUEUE_SIZE
                      else min (length rs) MAX_QUEUE_SIZE + 1)"
    using snoc by (simp only: enqueue_size [OF wf])
  also have "\<dots> = min (length (rs @ [r])) MAX_QUEUE_SIZE"
    by (simp add: min_def)
  finally show ?case .
qed

lemma cstr_no_NUL: "NUL \<notin> set (cstr src)"
  by (auto simp: cstr_def dest: set_takeWhileD)

lemma cstr_append_NUL: "NUL \<notin> set xs \<Longrightarrow> cstr (xs @ NUL # ys) = xs"
  by (induction xs) (auto simp: cstr_def)

lemma stored_buffer_shape:
  assumes "n < length dest"
  shows "\<exists>ys. (strncpy dest src n)[n := NUL] = take n (cstr src) @ NUL # ys"
proof (cases "n \<le> length (cstr src)")
  case True
  obtain y ys where d: "drop n dest = y # ys"
    using assms by (cases "drop n dest") simp_all
  have "strncpy dest src n = take n (cstr src) @ y # ys"
    using True d by (simp add: strncpy_def)
  moreover have "length (take n (cstr src)) = n" using True by simp
  ultimately have "(strncpy dest src n)[n := NUL] = take n (cstr src) @ NUL # ys"
    by (simp add: list_update_append)
  then show ?thesis by blast
next
  case False
  then obtain k where k: "n - length (cstr src) = Suc k" by (cases "n - length (cstr src)") simp_all
  have "strncpy dest src n = cstr src @ NUL # (replicate k NUL @ drop n dest)"
    using False k by (simp add: strncpy_def)
  then have "(strncpy dest src n)[n := NUL]
               = cstr src @ NUL # (replicate k NUL @ drop n dest)[n - length (cstr src) - 1 := NUL]"
    using False k by (simp add: list_update_append)
  then show ?thesis using False by auto
qed

lemma cstr_stored:
  assumes "n < length dest"
  shows "cstr ((strncpy dest src n)[n := NUL]) = take n (cstr src)"
proof -
  obtain ys where "(strncpy dest src n)[n := NUL] = take n (cstr src) @ NUL # ys"
    using stored_buffer_shape [OF assms] by blast
  moreover have "NUL \<notin> set (take n (cstr src))"
    using cstr_no_NUL [of src] by (auto dest: in_set_takeD)
  ultimately show ?thesis by (simp add: cstr_append_NUL)
qed

lemma write_slot_strings:
  assumes "length (qm_topic old) = TOPIC_SIZE" "length (qm_payload old) = PAYLOAD_SIZE"
  shows "cstr (qm_topic (write_slot old tp pl r q t)) = take 127 (cstr tp)"
    and "cstr (qm_payload (write_slot old tp pl r q t)) = take 511 (cstr pl)"
    and "qm_topic (write_slot old tp pl r q t) ! 127 = NUL"
    and "qm_payload (write_slot old tp pl r q t) ! 511 = NUL"
  using assms
  by (simp_all add: write_slot_def cstr_stored length_strncpy TOPIC_SIZE_def PAYLOAD_SIZE_def)

text \<open>
  Claim C10. For every topic and payload, on every well-formed queue (full or not),
  \<open>queueMessage\<close> returns \<open>true\<close>, and the entry it stores at the tail holds, in a
  128-byte topic buffer and a 512-byte payload buffer that both end in NUL, the C strings
  of the arguments cut to at most 127 and at most 511 bytes. A longer input is truncated
  and nothing signals it.
\<close>

theorem C10_enqueue_truncates:
  assumes "queue_wf s"
  shows "fst (queueMessage t topic payload retained qos s) = True
       \<and> message_queue_size (snd (queueMessage t topic payload retained qos s)) > 0
       \<and> (let m = last (queue_contents (snd (queueMessage t topic payload retained qos s)))
          in length (qm_topic m) = 128 \<and> qm_topic m ! 127 = NUL
             \<and> cstr (qm_topic m) = take 127 (cstr topic) \<and> length (cstr (qm_topic m)) \<le> 127
             \<and> length (qm_payload m) = 512 \<and> qm_payload m ! 511 = NUL
             \<and> cstr (qm_payload m) = take 511 (cstr payload) \<and> length (cstr (qm_payload m)) \<le> 511)"
proof -
  let ?k = "if message_queue_size s = MAX_QUEUE_SIZE then MAX_QUEUE_SIZE - 1 else message_queue_size s"
  let ?old = "message_queue s ! ?k"
  let ?s' = "snd (queueMessage t topic payload retained qos s)"
  let ?m = "write_slot ?old topic payload retained qos t"
  have k: "?k < length (message_queue s)"
    using assms by (auto simp: queue_wf_def MAX_QUEUE_SIZE_def)
  then have "?old \<in> set (message_queue s)" by (rule nth_mem)
  then have old: "length (qm_topic ?old) = TOPIC_SIZE" "length (qm_payload ?old) = PAYLOAD_SIZE"
    using assms by (simp_all add: queue_wf_def)
  have "last (queue_contents ?s') = ?m"
    by (simp add: queueMessage_contents [OF assms])
  moreover have "length (qm_topic ?m) = 128" "length (qm_payload ?m) = 512"
    using write_slot_lengths [OF old] by (simp_all add: TOPIC_SIZE_def PAYLOAD_SIZE_def)
  moreover note write_slot_strings [OF old, of topic payload retained qos t]
  moreover have "fst (queueMessage t topic payload retained qos s) = True"
    by (simp add: queueMessage_def Let_def)
  moreover have "message_queue_size ?s' > 0"
    by (simp add: queueMessage_size [OF assms] MAX_QUEUE_SIZE_def)
  ultimately show ?thesis by (simp add: Let_def)
qed

theorem C10_enqueue_truncates_witness:
  "queue_wf (NetworkManager_init cfg0)
   \<and> fst (queueMessage 5 ''a/b'' (replicate 600 CHR ''x'') False 0 (NetworkManager_init cfg0)) = True
   \<and> cstr (qm_topic (last (queue_contents
         (snd (queueMessage 5 ''a/b'' (replicate 600 CHR ''x'') False 0 (NetworkManager_init cfg0))))))
       = ''a/b''
   \<and> cstr (qm_payload (last (queue_contents
         (snd (queueMessage 5 ''a/b'' (replicate 600 CHR ''x'') False 0 (NetworkManager_init cfg0))))))
       = replicate 511 CHR ''x''"
proof -
  have c1: "cstr ''a/b'' = ''a/b''" by (simp add: cstr_def NUL_def)
  have c2: "cstr (replicate 600 CHR ''x'') = replicate 600 CHR ''x''"
    by (simp add: cstr_def NUL_def takeWhile_eq_all_conv)
  from C10_enqueue_truncates [OF init_wf, of 5 "''a/b''" "replicate 600 CHR ''x''" False 0 cfg0]
  show ?thesis by (simp add: Let_def c1 c2 init_wf)
qed

lemma enqueue_contents_full:
  assumes "queue_wf s" "message_queue_size s = MAX_QUEUE_SIZE"
  shows "queue_contents (enqueue s r)
           = tl (queue_contents s) @ [new_entry (message_queue s ! (MAX_QUEUE_SIZE - 1)) r]"
  unfolding enqueue_def new_entry_def using assms(2)
  by (simp add: queueMessage_contents [OF assms(1)])

lemma new_entry_fields:
  assumes "length (qm_topic old) = TOPIC_SIZE" "length (qm_payload old) = PAYLOAD_SIZE"
  shows "cstr (qm_topic (new_entry old r)) = take 127 (cstr (pub_topic r))"
    and "cstr (qm_payload (new_entry old r)) = take 511 (cstr (pub_payload r))"
    and "qm_retained (new_entry old r) = pub_retained r"
    and "qm_qos (new_entry old r) = pub_qos r"
    and "qm_timestamp (new_entry old r) = pub_at r"
    and "qm_retry_count (new_entry old r) = 0"
proof -
  show "cstr (qm_topic (new_entry old r)) = take 127 (cstr (pub_topic r))"
    unfolding new_entry_def by (rule write_slot_strings(1) [OF assms])
  show "cstr (qm_payload (new_entry old r)) = take 511 (cstr (pub_payload r))"
    unfolding new_entry_def by (rule write_slot_strings(2) [OF assms])
  show "qm_retained (new_entry old r) = pub_retained r"
    "qm_qos (new_entry old r) = pub_qos r"
    "qm_timestamp (new_entry old r) = pub_at r"
    "qm_retry_count (new_entry old r) = 0"
    by (simp_all add: new_entry_def write_slot_def)
qed

text \<open>
  Claim C3. After any sequence of \<open>queueMessage\<close> calls on a fresh manager the number
  of queued entries is at most \<open>MAX_QUEUE_SIZE = 10\<close>; and a call on a queue that holds
  10 entries drops exactly the entry at the head, keeps the other nine in order, puts the
  new message at the tail, and leaves the number of entries at 10. The entry at the tail
  is the message of the call: its topic and payload strings (cut to the buffer sizes), its
  retained flag, its quality-of-service level and the clock reading of the call, with a
  retry count of 0.
\<close>

theorem C3_queue_bound:
  "message_queue_size (foldl enqueue (NetworkManager_init cfg) rs) \<le> MAX_QUEUE_SIZE
   \<and> length (queue_contents (foldl enqueue (NetworkManager_init cfg) rs))
       = message_queue_size (foldl enqueue (NetworkManager_init cfg) rs)
   \<and> (message_queue_size (foldl enqueue (NetworkManager_init cfg) rs) = MAX_QUEUE_SIZE \<longrightarrow>
        queue_contents (enqueue (foldl enqueue (NetworkManager_init cfg) rs) r)
          = tl (queue_contents (foldl enqueue (NetworkManager_init cfg) rs))
            @ [new_entry (message_queue (foldl enqueue (NetworkManager_init cfg) rs) ! (MAX_QUEUE_SIZE - 1)) r]
        \<and> message_queue_size (enqueue (foldl enqueue (NetworkManager_init cfg) rs) r) = MAX_QUEUE_SIZE
        \<and> length (queue_contents (enqueue (foldl enqueue (NetworkManager_init cfg) rs) r)) = MAX_QUEUE_SIZE
        \<and> butlast (queue_contents (enqueue (foldl enqueue (NetworkManager_init cfg) rs) r))
            = tl (queue_contents (foldl enqueue (NetworkManager_init cfg) rs))
        \<and> cstr (qm_topic (last (queue_contents (enqueue (foldl enqueue (NetworkManager_init cfg) rs) r))))
            = take 127 (cstr (pub_topic r))
        \<and> cstr (qm_payload (last (queue_contents (enqueue (foldl enqueue (NetworkManager_init cfg) rs) r))))
            = take 511 (cstr (pub_payload r))
        \<and> qm_retained (last (queue_contents (enqueue (foldl enqueue (NetworkManager_init cfg) rs) r)))
            = pub_retained r
        \<and> qm_qos (last (queue_contents (enqueue (foldl enqueue (NetworkManager_init cfg) rs) r)))
            = pub_qos r
        \<and> qm_timestamp (last (queue_contents (enqueue (foldl enqueue (NetworkManager_init cfg) rs) r)))
            = pub_at r
        \<and> qm_retry_count (last (queue_contents (enqueue (foldl enqueue (NetworkManager_init cfg) rs) r)))
            = 0)"
proof -
  let ?s = "foldl enqueue (NetworkManager_init cfg) rs"
  let ?old = "message_queue ?s ! (MAX_QUEUE_SIZE - 1)"
  let ?c' = "queue_contents (enqueue ?s r)"
  have wf: "queue_wf ?s" by (rule enqueue_all_wf [OF init_wf])
  have wf': "queue_wf (enqueue ?s r)" by (rule enqueue_wf [OF wf])
  have len: "\<And>x. queue_wf x \<Longrightarrow> length (queue_contents x) = message_queue_size x"
    by (simp add: queue_wf_def queue_contents_def)
  have b: "message_queue_size ?s \<le> MAX_QUEUE_SIZE" using wf by (simp add: queue_wf_def)
  have "MAX_QUEUE_SIZE - 1 < length (message_queue ?s)"
    using wf by (simp add: queue_wf_def MAX_QUEUE_SIZE_def)
  then have "?old \<in> set (message_queue ?s)" by (rule nth_mem)
  then have old: "length (qm_topic ?old) = TOPIC_SIZE" "length (qm_payload ?old) = PAYLOAD_SIZE"
    using wf by (simp_all add: queue_wf_def)
  note nf = new_entry_fields [OF old, of r]
  have full: "message_queue_size ?s = MAX_QUEUE_SIZE \<Longrightarrow>
      ?c' = tl (queue_contents ?s) @ [new_entry ?old r]"
    by (rule enqueue_contents_full [OF wf])
  have sz: "message_queue_size ?s = MAX_QUEUE_SIZE \<Longrightarrow>
      message_queue_size (enqueue ?s r) = MAX_QUEUE_SIZE"
    by (simp add: enqueue_size [OF wf])
  have len3: "message_queue_size ?s = MAX_QUEUE_SIZE \<Longrightarrow> length ?c' = MAX_QUEUE_SIZE"
    using len [OF wf'] sz by (simp only:)
  have bl: "message_queue_size ?s = MAX_QUEUE_SIZE \<Longrightarrow> butlast ?c' = tl (queue_contents ?s)"
    using full by simp
  have la: "message_queue_size ?s = MAX_QUEUE_SIZE \<Longrightarrow> last ?c' = new_entry ?old r"
    using full by simp
  have stored: "message_queue_size ?s = MAX_QUEUE_SIZE \<Longrightarrow>
      cstr (qm_topic (last ?c')) = take 127 (cstr (pub_topic r))
      \<and> cstr (qm_payload (last ?c')) = take 511 (cstr (pub_payload r))
      \<and> qm_retained (last ?c') = pub_retained r
      \<and> qm_qos (last ?c') = pub_qos r
      \<and> qm_timestamp (last ?c') = pub_at r
      \<and> qm_retry_count (last ?c') = 0"
    using la nf by simp
  show ?thesis using b len [OF wf] full sz len3 bl stored by blast
qed

text \<open>Ten status publications fill the queue; the eleventh evicts the first.\<close>

theorem C3_queue_bound_witness:
  "message_queue_size (foldl enqueue (NetworkManager_init cfg0) (replicate 10 pub0)) = MAX_QUEUE_SIZE
   \<and> queue_contents (enqueue (foldl enqueue (NetworkManager_init cfg0) (replicate 10 pub0)) pub0)
       = tl (queue_contents (foldl enqueue (NetworkManager_init cfg0) (replicate 10 pub0)))
         @ [new_entry (message_queue (foldl enqueue (NetworkManager_init cfg0) (replicate 10 pub0))
                        ! (MAX_QUEUE_SIZE - 1)) pub0]
   \<and> message_queue_size (enqueue (foldl enqueue (NetworkManager_init cfg0) (replicate 10 pub0)) pub0)
       = MAX_QUEUE_SIZE
   \<and> cstr (qm_topic (last (queue_contents
         (enqueue (foldl enqueue (NetworkManager_init cfg0) (replicate 10 pub0)) pub0)))) = ''status/1''
   \<and> cstr (qm_payload (last (queue_contents
         (enqueue (foldl enqueue (NetworkManager_init cfg0) (replicate 10 pub0)) pub0)))) = ''{}''
   \<and> qm_retained (last (queue_contents
         (enqueue (foldl enqueue (NetworkManager_init cfg0) (replicate 10 pub0)) pub0))) = True
   \<and> qm_qos (last (queue_contents
         (enqueue (foldl enqueue (NetworkManager_init cfg0) (replicate 10 pub0)) pub0))) = 0
   \<and> qm_timestamp (last (queue_contents
         (enqueue (foldl enqueue (NetworkManager_init cfg0) (replicate 10 pub0)) pub0))) = 7"
proof -
  have h: "message_queue_size (foldl enqueue (NetworkManager_init cfg0) (replicate 10 pub0)) = MAX_QUEUE_SIZE"
    by (simp add: enqueue_all_size MAX_QUEUE_SIZE_def)
  have p: "pub_topic pub0 = ''status/1''" "pub_payload pub0 = ''{}''" "pub_retained pub0 = True"
    "pub_qos pub0 = 0" "pub_at pub0 = 7"
    by (simp_all add: pub0_def)
  have c: "cstr ''status/1'' = ''status/1''" "cstr ''{}'' = ''{}''"
    by (simp_all add: cstr_def NUL_def)
  have e: "take 127 (cstr ''status/1'') = ''status/1''" "take 511 (cstr ''{}'') = ''{}''"
    by (simp_all add: c)
  note t = C3_queue_bound [of cfg0 "replicate 10 pub0" pub0, THEN conjunct2, THEN conjunct2, THEN mp, OF h]
  show ?thesis using h t [unfolded p e] by blast
qed

lemma remove_head_contents:
  assumes "length (message_queue s) = MAX_QUEUE_SIZE" "0 < message_queue_size s"
    "message_queue_size s \<le> MAX_QUEUE_SIZE"
  shows "queue_contents (remove_head s) = tl (queue_contents s)"
proof -
  let ?n = "message_queue_size s - 1"
  have n: "?n < length (message_queue s)" using assms by (simp add: MAX_QUEUE_SIZE_def)
  have "queue_contents (remove_head s) = take ?n (shift_queue 0 ?n (message_queue s))"
    by (simp add: remove_head_def queue_contents_def)
  also have "\<dots> = take ?n (tl (message_queue s))" by (rule take_shift_queue [OF n])
  also have "\<dots> = tl (take (message_queue_size s) (message_queue s))"
    by (simp add: tl_take)
  finally show ?thesis by (simp add: queue_contents_def)
qed

lemma contents_update_head:
  assumes "0 < message_queue_size s" "message_queue_size s \<le> length (message_queue s)"
  shows "take (message_queue_size s) ((message_queue s)[0 := m]) = m # tl (queue_contents s)"
proof -
  obtain x xs where q: "message_queue s = x # xs"
    using assms by (cases "message_queue s") simp_all
  obtain k where k: "message_queue_size s = Suc k"
    using assms(1) by (cases "message_queue_size s") simp_all
  show ?thesis by (simp add: q k queue_contents_def)
qed

lemma head_is_slot0:
  assumes "0 < message_queue_size s" "message_queue_size s \<le> length (message_queue s)"
  shows "hd (queue_contents s) = message_queue s ! 0"
  using assms by (cases "message_queue s") (simp_all add: queue_contents_def hd_take)

lemma processMessageQueue_failed:
  assumes wf: "queue_wf s" and c: "isMQTTConnected s" and ne: "0 < message_queue_size s"
    and f: "\<not> publish_result env"
  shows "queue_contents (processMessageQueue env s)
           = (if qm_retry_count (hd (queue_contents s)) + 1 \<ge> 3 then tl (queue_contents s)
              else (hd (queue_contents s))\<lparr>qm_retry_count := qm_retry_count (hd (queue_contents s)) + 1\<rparr>
                   # tl (queue_contents s))"
proof -
  let ?h = "message_queue s ! 0"
  let ?m = "?h\<lparr>qm_retry_count := qm_retry_count ?h + 1\<rparr>"
  let ?s1 = "s\<lparr>message_queue := (message_queue s)[0 := ?m],
               stats := (stats s)\<lparr>messages_failed := messages_failed (stats s) + 1\<rparr>\<rparr>"
  have len: "length (message_queue s) = MAX_QUEUE_SIZE" "message_queue_size s \<le> MAX_QUEUE_SIZE"
    using wf by (simp_all add: queue_wf_def)
  have hd: "hd (queue_contents s) = ?h" using ne len by (simp add: head_is_slot0)
  have c1: "queue_contents ?s1 = ?m # tl (queue_contents s)"
    using contents_update_head [of s ?m] ne len by (simp add: queue_contents_def)
  have p: "processMessageQueue env s = (if qm_retry_count ?m \<ge> 3 then remove_head ?s1 else ?s1)"
    using c ne f by (simp add: processMessageQueue_def Let_def)
  have r: "queue_contents (remove_head ?s1) = tl (queue_contents ?s1)"
    using ne len by (intro remove_head_contents) simp_all
  show ?thesis unfolding p hd using c1 r by simp
qed

lemma sketch_remove_head_contents:
  assumes "length (messageQueue s) = 10" "0 < queueCount s" "queueCount s \<le> 10"
  shows "sketch_contents (sketch_remove_head s) = tl (sketch_contents s)"
proof -
  let ?n = "queueCount s - 1"
  have n: "?n < length (messageQueue s)" using assms by simp
  have "sketch_contents (sketch_remove_head s) = take ?n (shift_queue 0 ?n (messageQueue s))"
    by (simp add: sketch_remove_head_def sketch_contents_def)
  also have "\<dots> = take ?n (tl (messageQueue s))" by (rule take_shift_queue [OF n])
  also have "\<dots> = tl (take (queueCount s) (messageQueue s))"
    by (simp add: tl_take)
  finally show ?thesis by (simp add: sketch_contents_def)
qed

lemma processQueuedMessages_failed:
  assumes wf: "sketch_wf k" and c: "isMqttReallyConnected env" and ne: "0 < queueCount k"
    and f: "\<not> sk_publish_result env"
  shows "sketch_contents (snd (processQueuedMessages env k))
           = (if sm_retry_count (hd (sketch_contents k)) + 1 > 3 then tl (sketch_contents k)
              else (hd (sketch_contents k))\<lparr>sm_retry_count := sm_retry_count (hd (sketch_contents k)) + 1\<rparr>
                   # tl (sketch_contents k))"
proof -
  let ?h = "messageQueue k ! 0"
  let ?m = "?h\<lparr>sm_retry_count := sm_retry_count ?h + 1\<rparr>"
  let ?s1 = "k\<lparr>messageQueue := (messageQueue k)[0 := ?m]\<rparr>"
  let ?s2 = "if sk_state_after env \<noteq> 0 then ?s1\<lparr>mqttConnected := False\<rparr> else ?s1"
  have len: "length (messageQueue k) = 10" "queueCount k \<le> 10"
    using wf by (simp_all add: sketch_wf_def)
  obtain x xs where q: "messageQueue k = x # xs"
    using len by (cases "messageQueue k") simp_all
  obtain j where j: "queueCount k = Suc j"
    using ne by (cases "queueCount k") simp_all
  have hd: "hd (sketch_contents k) = ?h" by (simp add: q j sketch_contents_def)
  have c1: "sketch_contents ?s2 = ?m # tl (sketch_contents k)"
    by (simp add: q j sketch_contents_def)
  have p: "snd (processQueuedMessages env k) = (if sm_retry_count ?m > 3 then sketch_remove_head ?s2 else ?s2)"
    using c ne f by (simp add: processQueuedMessages_def Let_def)
  have r: "sketch_contents (sketch_remove_head ?s2) = tl (sketch_contents ?s2)"
    using ne len by (intro sketch_remove_head_contents) simp_all
  show ?thesis unfolding p hd using c1 r by simp
qed

lemma replicate_update_head:
  "0 < n \<Longrightarrow> (replicate n x)[0 := m] = m # replicate (n - 1) x"
  by (cases n) simp_all

lemma nm_online_wf: "queue_wf nm_online"
  using init_wf [of cfg0] by (simp add: nm_online_def queue_wf_def)

lemma nm_one_facts:
  "queue_wf nm_one" "isMQTTConnected nm_one" "message_queue_size nm_one = 1"
  "queue_contents nm_one = [new_entry empty_slot pub0]"
proof -
  show "queue_wf nm_one" unfolding nm_one_def by (rule enqueue_wf [OF nm_online_wf])
  show "isMQTTConnected nm_one"
    by (simp add: nm_one_def enqueue_def queueMessage_def Let_def isMQTTConnected_def
        nm_online_def NetworkManager_init_def MAX_QUEUE_SIZE_def)
  have sz: "message_queue_size nm_online = 0"
    by (simp add: nm_online_def NetworkManager_init_def)
  show "message_queue_size nm_one = 1"
    unfolding nm_one_def by (simp add: enqueue_size [OF nm_online_wf] sz MAX_QUEUE_SIZE_def)
  have "message_queue nm_online ! 0 = empty_slot"
    by (simp add: nm_online_def NetworkManager_init_def MAX_QUEUE_SIZE_def)
  moreover have "queue_contents nm_online = []"
    by (simp add: queue_contents_def sz)
  ultimately show "queue_contents nm_one = [new_entry empty_slot pub0]"
    unfolding nm_one_def enqueue_def new_entry_def
    by (simp add: queueMessage_contents [OF nm_online_wf] sz MAX_QUEUE_SIZE_def)
qed

lemma sketch_one_facts:
  "sketch_wf sketch_one" "queueCount sketch_one = 1"
  "sm_retry_count (hd (sketch_contents sketch_one)) = 0"
  by (simp_all add: sketch_one_def sketch_queueMessage_def initOfflineQueue_def Let_def
      sketch_wf_def sketch_contents_def replicate_update_head)

text \<open>
  Claim C2, as the code has it. A failed drain attempt increments the retry count of the
  entry at the head and leaves it at the head, unless the count has then reached the
  limit, in which case the entry is removed and the rest of the queue moves up. The two
  drain functions differ in the limit: \<open>NetworkManager::processMessageQueue\<close> removes
  the entry when the count is at least 3, that is at its third failed attempt; the
  sketch's \<open>processQueuedMessages\<close> removes it when the count exceeds 3, that is at its
  fourth.
\<close>

theorem C2_retry_exhaustion:
  "(queue_wf s \<and> isMQTTConnected s \<and> 0 < message_queue_size s \<and> \<not> publish_result env \<longrightarrow>
      queue_contents (processMessageQueue env s)
        = (if qm_retry_count (hd (queue_contents s)) + 1 \<ge> 3 then tl (queue_contents s)
           else (hd (queue_contents s))\<lparr>qm_retry_count := qm_retry_count (hd (queue_contents s)) + 1\<rparr>
                # tl (queue_contents s)))
   \<and> (sketch_wf k \<and> isMqttReallyConnected senv \<and> 0 < queueCount k \<and> \<not> sk_publish_result senv \<longrightarrow>
      sketch_contents (snd (processQueuedMessages senv k))
        = (if sm_retry_count (hd (sketch_contents k)) + 1 > 3 then tl (sketch_contents k)
           else (hd (sketch_contents k))\<lparr>sm_retry_count := sm_retry_count (hd (sketch_contents k)) + 1\<rparr>
                # tl (sketch_contents k)))"
  using processMessageQueue_failed [of s env] processQueuedMessages_failed [of k senv]
  by blast

text \<open>Both drain functions on a queue of one fresh message, with a failing send.\<close>

theorem C2_retry_exhaustion_witness:
  "queue_wf nm_one \<and> isMQTTConnected nm_one \<and> 0 < message_queue_size nm_one
   \<and> \<not> publish_result env_fail
   \<and> queue_contents (processMessageQueue env_fail nm_one)
       = [(new_entry empty_slot pub0)\<lparr>qm_retry_count := 1\<rparr>]
   \<and> sketch_wf sketch_one \<and> isMqttReallyConnected senv_fail \<and> 0 < queueCount sketch_one
   \<and> \<not> sk_publish_result senv_fail
   \<and> sketch_contents (snd (processQueuedMessages senv_fail sketch_one))
       = [(hd (sketch_contents sketch_one))\<lparr>sm_retry_count := 1\<rparr>]"
proof -
  have e: "\<not> publish_result env_fail" "isMqttReallyConnected senv_fail" "\<not> sk_publish_result senv_fail"
    by (simp_all add: env_fail_def senv_fail_def isMqttReallyConnected_def)
  have r0: "qm_retry_count (new_entry empty_slot pub0) = 0"
    by (simp add: new_entry_def write_slot_def)
  have t: "tl (sketch_contents sketch_one) = []"
    by (simp add: sketch_one_def sketch_queueMessage_def initOfflineQueue_def Let_def
        sketch_contents_def replicate_update_head)
  from C2_retry_exhaustion [of nm_one env_fail sketch_one senv_fail]
  show ?thesis using e nm_one_facts sketch_one_facts r0 t by simp
qed

lemma processMessageQueue_mqtt_state [simp]:
  "mqtt_state (processMessageQueue env s) = mqtt_state s"
  by (simp add: processMessageQueue_def remove_head_def Let_def)

lemma remove_head_wf:
  assumes "queue_wf s"
  shows "queue_wf (remove_head s)"
proof (cases "message_queue_size s = 0")
  case True
  have "shift_queue 0 0 (message_queue s) = message_queue s"
    by (subst shift_queue.simps) simp
  then show ?thesis using assms True by (simp add: remove_head_def queue_wf_def)
next
  case False
  then have "message_queue_size s - 1 < length (message_queue s)"
    using assms by (clarsimp simp: queue_wf_def) arith
  from set_shift_queue [OF this] show ?thesis
    using assms by (auto simp: remove_head_def queue_wf_def)
qed

lemma processMessageQueue_wf:
  assumes "queue_wf s"
  shows "queue_wf (processMessageQueue env s)"
proof -
  let ?m = "(message_queue s ! 0)\<lparr>qm_retry_count := qm_retry_count (message_queue s ! 0) + 1\<rparr>"
  have len: "0 < length (message_queue s)" using assms by (simp add: queue_wf_def MAX_QUEUE_SIZE_def)
  then have "message_queue s ! 0 \<in> set (message_queue s)" by simp
  then have m: "length (qm_topic ?m) = TOPIC_SIZE \<and> length (qm_payload ?m) = PAYLOAD_SIZE"
    using assms by (simp add: queue_wf_def)
  have buf: "\<forall>x \<in> set ((message_queue s)[0 := ?m]).
               length (qm_topic x) = TOPIC_SIZE \<and> length (qm_payload x) = PAYLOAD_SIZE"
  proof
    fix x assume "x \<in> set ((message_queue s)[0 := ?m])"
    then have "x \<in> insert ?m (set (message_queue s))"
      using set_update_subset_insert [of "message_queue s" 0 ?m] by blast
    then show "length (qm_topic x) = TOPIC_SIZE \<and> length (qm_payload x) = PAYLOAD_SIZE"
      using m assms by (auto simp: queue_wf_def)
  qed
  have wf1: "\<And>st. queue_wf (s\<lparr>message_queue := (message_queue s)[0 := ?m], stats := st\<rparr>)"
    using assms buf by (simp add: queue_wf_def)
  have wf2: "\<And>st. queue_wf (s\<lparr>stats := st\<rparr>)" using assms by (simp add: queue_wf_def)
  show ?thesis
    unfolding processMessageQueue_def Let_def
    using assms wf1 wf2 by (auto intro!: remove_head_wf)
qed

lemma wf_size: "queue_wf s \<Longrightarrow> message_queue_size s = length (queue_contents s)"
  by (simp add: queue_wf_def queue_contents_def)

text \<open>
  Claim C2 as stated fails for \<open>NetworkManager::processMessageQueue\<close>: a message
  queued with retry count 0 is gone after three failed attempts, not four.
\<close>

theorem C2_counterexample:
  "qm_retry_count (hd (queue_contents nm_one)) = 0
   \<and> message_queue_size nm_one = 1
   \<and> message_queue_size
        (processMessageQueue env_fail (processMessageQueue env_fail
           (processMessageQueue env_fail nm_one))) = 0"
proof -
  let ?e = "new_entry empty_slot pub0"
  let ?s1 = "processMessageQueue env_fail nm_one"
  let ?s2 = "processMessageQueue env_fail ?s1"
  let ?s3 = "processMessageQueue env_fail ?s2"
  have f: "\<not> publish_result env_fail" by (simp add: env_fail_def)
  have r0: "qm_retry_count ?e = 0" by (simp add: new_entry_def write_slot_def)
  have wf1: "queue_wf ?s1" by (intro processMessageQueue_wf nm_one_facts)
  have wf2: "queue_wf ?s2" by (intro processMessageQueue_wf nm_one_facts)
  have wf3: "queue_wf ?s3" by (intro processMessageQueue_wf nm_one_facts)
  have c: "isMQTTConnected ?s1" "isMQTTConnected ?s2"
    using nm_one_facts(2) by (simp_all add: isMQTTConnected_def)
  have c1: "queue_contents ?s1 = [?e\<lparr>qm_retry_count := 1\<rparr>]"
    using processMessageQueue_failed [OF nm_one_facts(1,2) _ f] nm_one_facts(3,4) r0 by simp
  then have n1: "0 < message_queue_size ?s1" by (simp add: wf_size [OF wf1])
  have c2: "queue_contents ?s2 = [?e\<lparr>qm_retry_count := 2\<rparr>]"
    using processMessageQueue_failed [OF wf1 c(1) n1 f] c1 by simp
  then have n2: "0 < message_queue_size ?s2" by (simp add: wf_size [OF wf2])
  have c3: "queue_contents ?s3 = []"
    using processMessageQueue_failed [OF wf2 c(2) n2 f] c2 by simp
  then have "message_queue_size ?s3 = 0" by (simp add: wf_size [OF wf3])
  then show ?thesis using nm_one_facts(3,4) r0 by simp
qed

lemma queueMessage_returns_true: "fst (queueMessage t topic payload retained qos s) = True"
  by (simp add: queueMessage_def Let_def)

text \<open>
  Claim C4, as the code has it. When the session is not connected, \<open>publish\<close> is
  \<open>queueMessage\<close> and returns its result, \<open>true\<close>. When the session is connected and
  the send fails, the message is queued exactly as \<open>queueMessage\<close> queues it, but
  \<open>publish\<close> returns the result of the send, \<open>false\<close>, and not the result of the
  enqueue. When the send succeeds, \<open>publish\<close> returns \<open>true\<close> and the queue is
  untouched.
\<close>

theorem C4_publish_result:
  "(\<not> isMQTTConnected s \<longrightarrow>
      publish env topic payload retained qos s = queueMessage (now env) topic payload retained qos s
      \<and> fst (publish env topic payload retained qos s) = True)
   \<and> (isMQTTConnected s \<and> \<not> publish_result env \<longrightarrow>
      fst (publish env topic payload retained qos s) = False
      \<and> fst (queueMessage (now env) topic payload retained qos s) = True
      \<and> message_queue_size (snd (publish env topic payload retained qos s))
          = message_queue_size (snd (queueMessage (now env) topic payload retained qos s))
      \<and> queue_contents (snd (publish env topic payload retained qos s))
          = queue_contents (snd (queueMessage (now env) topic payload retained qos s)))
   \<and> (isMQTTConnected s \<and> publish_result env \<longrightarrow>
      fst (publish env topic payload retained qos s) = True
      \<and> queue_contents (snd (publish env topic payload retained qos s)) = queue_contents s)"
proof (cases "isMQTTConnected s")
  case False
  then have "publish env topic payload retained qos s
               = queueMessage (now env) topic payload retained qos s"
    by (simp add: publish_def)
  then show ?thesis using False by (simp add: queueMessage_returns_true)
next
  case True
  show ?thesis
  proof (cases "publish_result env")
    case sent: True
    then show ?thesis using True by (simp add: publish_def Let_def queue_contents_def)
  next
    case failed: False
    let ?s1 = "s\<lparr>stats := (stats s)\<lparr>messages_failed := messages_failed (stats s) + 1\<rparr>\<rparr>"
    have p: "publish env topic payload retained qos s
               = (False, snd (queueMessage (now env) topic payload retained qos ?s1))"
      using True failed by (simp add: publish_def Let_def)
    have q: "message_queue (snd (queueMessage (now env) topic payload retained qos ?s1))
               = message_queue (snd (queueMessage (now env) topic payload retained qos s))"
            "message_queue_size (snd (queueMessage (now env) topic payload retained qos ?s1))
               = message_queue_size (snd (queueMessage (now env) topic payload retained qos s))"
      by (simp_all add: queueMessage_def Let_def)
    show ?thesis
      using True failed by (simp add: p q queue_contents_def queueMessage_returns_true)
  qed
qed

text \<open>The three branches of \<open>publish\<close> at concrete states.\<close>

theorem C4_publish_result_witness:
  "isMQTTConnected nm_online \<and> \<not> publish_result env_fail
   \<and> fst (publish env_fail ''resp/1'' ''{}'' False 0 nm_online) = False
   \<and> message_queue_size (snd (publish env_fail ''resp/1'' ''{}'' False 0 nm_online)) = 1
   \<and> \<not> isMQTTConnected (NetworkManager_init cfg0)
   \<and> fst (publish env_fail ''resp/1'' ''{}'' False 0 (NetworkManager_init cfg0)) = True
   \<and> publish_result env_ok
   \<and> fst (publish env_ok ''resp/1'' ''{}'' False 0 nm_online) = True"
proof -
  have h: "isMQTTConnected nm_online" "\<not> publish_result env_fail" "publish_result env_ok"
    "\<not> isMQTTConnected (NetworkManager_init cfg0)"
    by (simp_all add: isMQTTConnected_def nm_online_def env_fail_def env_ok_def NetworkManager_init_def)
  have sz0: "message_queue_size nm_online = 0"
    by (simp add: nm_online_def NetworkManager_init_def)
  have sz: "message_queue_size (snd (queueMessage (now env_fail) ''resp/1'' ''{}'' False 0 nm_online)) = 1"
    by (simp add: queueMessage_size [OF nm_online_wf] sz0 MAX_QUEUE_SIZE_def)
  from C4_publish_result [of nm_online env_fail "''resp/1''" "''{}''" False 0]
       C4_publish_result [of "NetworkManager_init cfg0" env_fail "''resp/1''" "''{}''" False 0]
       C4_publish_result [of nm_online env_ok "''resp/1''" "''{}''" False 0]
  show ?thesis using h sz by (simp add: queueMessage_returns_true)
qed

text \<open>
  Claim C4 as stated fails: connected, with a failing send, \<open>publish\<close> returns
  \<open>false\<close> while the enqueue it performs returns \<open>true\<close>.
\<close>

theorem C4_counterexample:
  "isMQTTConnected nm_online \<and> \<not> publish_result env_fail
   \<and> fst (queueMessage (now env_fail) ''resp/1'' ''{}'' False 0 nm_online) = True
   \<and> fst (publish env_fail ''resp/1'' ''{}'' False 0 nm_online)
       \<noteq> fst (queueMessage (now env_fail) ''resp/1'' ''{}'' False 0 nm_online)"
  by (simp add: publish_def queueMessage_def Let_def isMQTTConnected_def nm_online_def
      env_fail_def)

section \<open>Properties of the connection state machines\<close>

lemma setMQTTState_state: "mqtt_state (setMQTTState st e s) = st"
  by (simp add: setMQTTState_def setError_def Let_def)

lemma updateMQTT_link_down:
  "\<not> isWiFiConnected s \<Longrightarrow> mqtt_state (updateMQTT env s) = MQTT_IDLE"
  by (simp add: updateMQTT_def setMQTTState_state)

lemma updateStats_mqtt_state: "mqtt_state (updateStats env s) = mqtt_state s"
  by (simp add: updateStats_def Let_def)

lemma updateWiFi_link_lost:
  "wifi_state s = WIFI_CONNECTED \<Longrightarrow> wifi_status env \<noteq> WL_CONNECTED \<Longrightarrow>
   wifi_state (updateWiFi env s) = WIFI_RECONNECTING"
  by (simp add: updateWiFi_def setWiFiState_def setError_def Let_def)

lemma feedWatchdog_wifi_state: "wifi_state (feedWatchdog env s) = wifi_state s"
  by (simp add: feedWatchdog_def)

lemma update_mqtt_state:
  assumes "\<forall>x. mqtt_state (hc x) = mqtt_state x"
  shows "mqtt_state (update hc env s) = mqtt_state (updateMQTT env (before_updateMQTT env s))"
  using assms by (simp add: update_def before_updateMQTT_def Let_def updateStats_mqtt_state)

text \<open>
  Claim C5. In every state and for every answer of the drivers: if the link state is not
  Connected at the point where \<open>update\<close> advances the session state machine, the
  session state is Idle when \<open>update\<close> returns; in particular when the link was
  Connected and the driver reports its loss during this call. The health check, whose
  body is not in the sources, is assumed to leave the session state alone; the
  registered callbacks are taken not to call back into the manager.
\<close>

theorem C5_session_idle_when_link_down:
  assumes "\<forall>x. mqtt_state (hc x) = mqtt_state x"
  shows "(\<not> isWiFiConnected (before_updateMQTT env s) \<longrightarrow>
            mqtt_state (update hc env s) = MQTT_IDLE)
       \<and> (isWiFiConnected s \<and> wifi_status env \<noteq> WL_CONNECTED \<longrightarrow>
            \<not> isWiFiConnected (before_updateMQTT env s)
            \<and> mqtt_state (update hc env s) = MQTT_IDLE)"
proof -
  have a: "\<not> isWiFiConnected (before_updateMQTT env s) \<Longrightarrow>
             mqtt_state (update hc env s) = MQTT_IDLE"
  proof -
    assume "\<not> isWiFiConnected (before_updateMQTT env s)"
    then have "mqtt_state (updateMQTT env (before_updateMQTT env s)) = MQTT_IDLE"
      by (rule updateMQTT_link_down)
    then show ?thesis by (simp only: update_mqtt_state [OF assms])
  qed
  have b: "isWiFiConnected s \<and> wifi_status env \<noteq> WL_CONNECTED \<Longrightarrow>
             \<not> isWiFiConnected (before_updateMQTT env s)"
  proof -
    assume h: "isWiFiConnected s \<and> wifi_status env \<noteq> WL_CONNECTED"
    let ?s1 = "if watchdog_enabled s then feedWatchdog env s else s"
    have "wifi_state ?s1 = WIFI_CONNECTED"
      using h by (simp add: isWiFiConnected_def feedWatchdog_wifi_state)
    then have "wifi_state (updateWiFi env ?s1) = WIFI_RECONNECTING"
      using h by (intro updateWiFi_link_lost) simp_all
    then show ?thesis by (simp add: before_updateMQTT_def isWiFiConnected_def)
  qed
  show ?thesis using a b by blast
qed

text \<open>A fully connected manager whose link driver reports the loss of the link.\<close>

theorem C5_session_idle_when_link_down_witness:
  "(\<forall>x. mqtt_state ((\<lambda>y. y) x) = mqtt_state x)
   \<and> mqtt_state nm_online = MQTT_CONNECTED
   \<and> isWiFiConnected nm_online \<and> wifi_status env_link_lost \<noteq> WL_CONNECTED
   \<and> \<not> isWiFiConnected (before_updateMQTT env_link_lost nm_online)
   \<and> mqtt_state (update (\<lambda>y. y) env_link_lost nm_online) = MQTT_IDLE"
proof -
  have h: "\<forall>x. mqtt_state ((\<lambda>y. y) x) = mqtt_state x" by simp
  have s: "isWiFiConnected nm_online" "mqtt_state nm_online = MQTT_CONNECTED"
    "wifi_status env_link_lost \<noteq> WL_CONNECTED"
    by (simp_all add: nm_online_def env_link_lost_def env_fail_def isWiFiConnected_def)
  from C5_session_idle_when_link_down [OF h, of env_link_lost nm_online] s h
  show ?thesis by simp
qed

section \<open>Properties of the presence detector\<close>

text \<open>
  Claim C6 against the code. A found result with a signal of -90 dBm, below the threshold
  of -80 dBm, on a fresh detector: confirmed presence and the grace flag stay as they
  were, but the consecutive-detection counter goes from 0 to 1, because \<open>checkBeacon\<close>
  advances the counters before it applies the filter. A single strong detection after it
  then confirms presence.
\<close>

theorem C6_weak_signal_counted:
  "consecutiveDetections detector_init = 0
   \<and> - 90 < BLE_SIGNAL_STRENGTH_THRESHOLD
   \<and> consecutiveDetections (checkBeacon 1000 True (- 90) detector_init) = 1
   \<and> \<not> currentPresence (checkBeacon 1000 True (- 90) detector_init)
   \<and> currentPresence (checkBeacon 3000 True (- 50) (checkBeacon 1000 True (- 90) detector_init))"
  by (simp add: checkBeacon_def detector_init_def BLE_SIGNAL_STRENGTH_THRESHOLD_def Let_def
      CONFIRM_SCANS_def updatePresenceStatus_def)

lemma run_snoc: "run_detector (es @ [e]) = observe (run_detector es) e"
  by (simp add: run_detector_def)

lemma found_run_snoc: "found_run (es @ [e]) = (if found e then Suc (found_run es) else 0)"
  by (simp add: found_run_def)

lemma miss_run_snoc: "miss_run (es @ [e]) = (if found e then 0 else Suc (miss_run es))"
  by (simp add: miss_run_def)

lemma det_inv_found:
  assumes "det_inv f m d"
  shows "det_inv (Suc f) 0 (checkBeacon t True r d)"
  using assms
  by (auto simp: det_inv_def checkBeacon_def Let_def endGracePeriod_def updatePresenceStatus_def)

lemma det_inv_miss:
  assumes "det_inv f m d"
  shows "det_inv 0 (Suc m) (checkBeacon t False r d)"
  using assms
  by (auto simp: det_inv_def checkBeacon_def Let_def endGracePeriod_def updatePresenceStatus_def
      startGracePeriod_def updateGracePeriod_def)

lemma det_inv_run: "det_inv (found_run es) (miss_run es) (run_detector es)"
proof (induction es rule: rev_induct)
  case Nil
  show ?case by (simp add: det_inv_def run_detector_def detector_init_def found_run_def miss_run_def)
next
  case (snoc e es)
  show ?case
  proof (cases "found e")
    case True
    then show ?thesis
      using det_inv_found [OF snoc, of "at e" "rssi_of e"]
      by (simp add: run_snoc found_run_snoc miss_run_snoc observe_def)
  next
    case False
    then show ?thesis
      using det_inv_miss [OF snoc, of "at e" "rssi_of e"]
      by (simp add: run_snoc found_run_snoc miss_run_snoc observe_def)
  qed
qed

lemma presence_rises:
  assumes "\<not> currentPresence d" "currentPresence (checkBeacon t b r d)"
  shows "b \<and> 2 \<le> consecutiveDetections d + 1"
  using assms
  by (auto simp: checkBeacon_def Let_def endGracePeriod_def updatePresenceStatus_def
      startGracePeriod_def updateGracePeriod_def CONFIRM_SCANS_def split: if_splits)

lemma presence_falls:
  assumes "currentPresence d" "\<not> currentPresence (checkBeacon t b r d)"
  shows "\<not> b \<and> 3 \<le> consecutiveMisses d + 1 \<and> inGracePeriod d"
  using assms
  by (auto simp: checkBeacon_def Let_def endGracePeriod_def updatePresenceStatus_def
      startGracePeriod_def updateGracePeriod_def CONFIRM_ABSENCE_SCANS_def split: if_splits)

text \<open>
  Claim C7. Along every sequence of scan outcomes fed to a fresh detector: a step at
  which confirmed presence goes from false to true ends a run of at least 2 consecutive
  found results; a step at which it goes from true to false ends a run of at least 3
  consecutive misses and starts from a state that is already in its grace period. A
  found result is one with \<open>beaconFound = true\<close>, whatever its signal strength.
\<close>

theorem C7_presence_hysteresis:
  "(\<not> currentPresence (run_detector es) \<and> currentPresence (run_detector (es @ [e])) \<longrightarrow>
      2 \<le> found_run (es @ [e]))
   \<and> (currentPresence (run_detector es) \<and> \<not> currentPresence (run_detector (es @ [e])) \<longrightarrow>
      3 \<le> miss_run (es @ [e]) \<and> inGracePeriod (run_detector es))"
proof -
  let ?d = "run_detector es"
  have inv: "consecutiveDetections ?d \<le> int (found_run es)" "consecutiveMisses ?d \<le> int (miss_run es)"
    using det_inv_run [of es] by (simp_all add: det_inv_def)
  have up: "\<not> currentPresence ?d \<and> currentPresence (run_detector (es @ [e])) \<Longrightarrow>
              2 \<le> found_run (es @ [e])"
    using presence_rises [of ?d "at e" "found e" "rssi_of e"] inv
    by (simp add: run_snoc observe_def found_run_snoc)
  have down: "currentPresence ?d \<and> \<not> currentPresence (run_detector (es @ [e])) \<Longrightarrow>
              3 \<le> miss_run (es @ [e]) \<and> inGracePeriod ?d"
    using presence_falls [of ?d "at e" "found e" "rssi_of e"] inv
    by (simp add: run_snoc observe_def miss_run_snoc)
  show ?thesis using up down by blast
qed

lemmas detector_defs = checkBeacon_def Let_def endGracePeriod_def updatePresenceStatus_def
  startGracePeriod_def updateGracePeriod_def getPresence_def

lemma arrival_run:
  "run_detector arrival = detector_init\<lparr>currentPresence := True, lastDetectionTime := 3000,
     lastStateChange := 3000, effects := [PublishPresenceUpdate True, UpdateMainDisplay]\<rparr>"
  by (simp add: arrival_def run_detector_def observe_def scan_found_def detector_defs
      detector_init_def CONFIRM_SCANS_def)

lemma grace_started_run:
  "run_detector grace_started = (run_detector arrival)\<lparr>consecutiveMisses := 3,
     inGracePeriod := True, gracePeriodStartTime := 13000, lastKnownPresence := True\<rparr>"
  unfolding grace_started_def run_detector_def foldl_append
  unfolding run_detector_def [symmetric] arrival_run
  by (simp add: observe_def scan_miss_def detector_defs detector_init_def CONFIRM_ABSENCE_SCANS_def)

lemma grace_trace_run:
  "run_detector grace_trace = (run_detector grace_started)\<lparr>consecutiveMisses := 14,
     gracePeriodAttempts := 11\<rparr>"
  unfolding grace_trace_def run_detector_def foldl_append
  unfolding run_detector_def [symmetric] grace_started_run arrival_run
  by (simp add: observe_def scan_miss_def detector_defs detector_init_def CONFIRM_ABSENCE_SCANS_def
      BLE_GRACE_PERIOD_MS_def BLE_RECONNECT_MAX_ATTEMPTS_def)

text \<open>
  Claim C8 as stated fails. The grace period starts at clock reading 13000 and twelve
  misses follow, five seconds apart; at the twelfth, 58 seconds after the start and
  before the window of 60 seconds has elapsed, the attempt counter reaches
  \<open>BLE_RECONNECT_MAX_ATTEMPTS\<close> and presence becomes false.
\<close>

theorem C8_counterexample:
  "inGracePeriod (run_detector grace_trace) \<and> currentPresence (run_detector grace_trace)
   \<and> gracePeriodStartTime (run_detector grace_trace) = 13000
   \<and> (71000 - 13000 :: millis) < word_of_int BLE_GRACE_PERIOD_MS
   \<and> \<not> currentPresence (run_detector (grace_trace @ [scan_miss 71000]))"
  unfolding run_snoc grace_trace_run grace_started_run arrival_run
  by (simp add: observe_def scan_miss_def detector_defs detector_init_def CONFIRM_ABSENCE_SCANS_def
      BLE_GRACE_PERIOD_MS_def BLE_RECONNECT_MAX_ATTEMPTS_def)

text \<open>An arrival after two found scans, and a departure at the end of a grace period.\<close>

theorem C7_presence_hysteresis_witness:
  "\<not> currentPresence (run_detector [scan_found 1000])
   \<and> currentPresence (run_detector ([scan_found 1000] @ [scan_found 3000]))
   \<and> 2 \<le> found_run ([scan_found 1000] @ [scan_found 3000])
   \<and> currentPresence (run_detector grace_started)
   \<and> \<not> currentPresence (run_detector (grace_started @ [scan_miss 100000]))
   \<and> 3 \<le> miss_run (grace_started @ [scan_miss 100000])
   \<and> inGracePeriod (run_detector grace_started)"
proof -
  have a: "\<not> currentPresence (run_detector [scan_found 1000])"
    by (simp add: run_detector_def observe_def scan_found_def detector_defs detector_init_def
        CONFIRM_SCANS_def)
  have b: "currentPresence (run_detector ([scan_found 1000] @ [scan_found 3000]))"
    using arrival_run by (simp add: arrival_def)
  have c: "currentPresence (run_detector grace_started)"
    by (simp add: grace_started_run arrival_run)
  have d: "\<not> currentPresence (run_detector (grace_started @ [scan_miss 100000]))"
    unfolding run_snoc grace_started_run arrival_run
    by (simp add: observe_def scan_miss_def detector_defs detector_init_def CONFIRM_ABSENCE_SCANS_def
        BLE_GRACE_PERIOD_MS_def BLE_RECONNECT_MAX_ATTEMPTS_def)
  from C7_presence_hysteresis [of "[scan_found 1000]" "scan_found 3000"]
       C7_presence_hysteresis [of grace_started "scan_miss 100000"]
  show ?thesis using a b c d by simp
qed

lemma grace_found_accepted:
  assumes "inGracePeriod d" "currentPresence d" "\<not> (r \<noteq> 0 \<and> r < BLE_SIGNAL_STRENGTH_THRESHOLD)"
  shows "currentPresence (checkBeacon t True r d) \<and> \<not> inGracePeriod (checkBeacon t True r d)
       \<and> effects (checkBeacon t True r d) = effects d"
  using assms by (auto simp: detector_defs)

lemma grace_found_weak:
  assumes "inGracePeriod d" "currentPresence d" "r \<noteq> 0 \<and> r < BLE_SIGNAL_STRENGTH_THRESHOLD"
  shows "currentPresence (checkBeacon t True r d) \<and> inGracePeriod (checkBeacon t True r d)
       \<and> effects (checkBeacon t True r d) = effects d"
  using assms by (auto simp: detector_defs)

lemma grace_miss:
  assumes "inGracePeriod d" "currentPresence d"
  shows "if grace_expires d \<lparr>at = t, found = False, rssi_of = r\<rparr>
         then \<not> currentPresence (checkBeacon t False r d) \<and> \<not> inGracePeriod (checkBeacon t False r d)
              \<and> effects (checkBeacon t False r d)
                  = effects d @ [PublishPresenceUpdate False, UpdateMainDisplay]
         else currentPresence (checkBeacon t False r d) \<and> inGracePeriod (checkBeacon t False r d)
              \<and> effects (checkBeacon t False r d) = effects d"
  using assms by (auto simp: detector_defs grace_expires_def)

lemma away_misses:
  assumes "\<not> currentPresence d" "\<forall>m \<in> set ms. \<not> found m"
  shows "\<not> currentPresence (foldl observe d ms) \<and> effects (foldl observe d ms) = effects d"
  using assms
proof (induction ms arbitrary: d)
  case Nil
  then show ?case by simp
next
  case (Cons m ms)
  have "\<not> currentPresence (observe d m) \<and> effects (observe d m) = effects d"
    using Cons.prems by (auto simp: observe_def detector_defs)
  then show ?case using Cons.IH [of "observe d m"] Cons.prems by simp
qed

text \<open>
  Claim C8, as the code has it. In every reachable state with a pending grace period,
  confirmed presence is true, and for the next scan: a found result that passes the
  signal filter ends the grace period, presence stays true and nothing is published; a
  found result below the threshold ends nothing; a miss ends the grace period exactly
  when it is at least the third consecutive miss and either the window of 60 s has
  elapsed since the start or the attempt counter reaches 12. Then presence becomes false,
  the flag is cleared and the presence-changed calls are made once; on any further run of
  misses presence stays false and nothing more is published.
\<close>

theorem C8_grace_period:
  assumes "inGracePeriod (run_detector es)"
  shows "currentPresence (run_detector es)
   \<and> (found e \<and> \<not> weak_signal e \<longrightarrow>
        currentPresence (run_detector (es @ [e])) \<and> \<not> inGracePeriod (run_detector (es @ [e]))
        \<and> effects (run_detector (es @ [e])) = effects (run_detector es))
   \<and> (found e \<and> weak_signal e \<longrightarrow>
        currentPresence (run_detector (es @ [e])) \<and> inGracePeriod (run_detector (es @ [e]))
        \<and> effects (run_detector (es @ [e])) = effects (run_detector es))
   \<and> (\<not> found e \<and> \<not> grace_expires (run_detector es) e \<longrightarrow>
        currentPresence (run_detector (es @ [e])) \<and> inGracePeriod (run_detector (es @ [e]))
        \<and> effects (run_detector (es @ [e])) = effects (run_detector es))
   \<and> (\<not> found e \<and> grace_expires (run_detector es) e \<longrightarrow>
        \<not> currentPresence (run_detector (es @ [e])) \<and> \<not> inGracePeriod (run_detector (es @ [e]))
        \<and> effects (run_detector (es @ [e]))
            = effects (run_detector es) @ [PublishPresenceUpdate False, UpdateMainDisplay]
        \<and> ((\<forall>m \<in> set ms. \<not> found m) \<longrightarrow>
             \<not> currentPresence (run_detector (es @ [e] @ ms))
             \<and> effects (run_detector (es @ [e] @ ms)) = effects (run_detector (es @ [e]))))"
proof -
  let ?d = "run_detector es"
  let ?d' = "run_detector (es @ [e])"
  have p: "currentPresence ?d" using det_inv_run [of es] assms by (simp add: det_inv_def)
  have e: "e = \<lparr>at = at e, found = found e, rssi_of = rssi_of e\<rparr>" by simp
  have d': "?d' = checkBeacon (at e) (found e) (rssi_of e) ?d"
    by (simp add: run_snoc observe_def)
  have a: "found e \<and> \<not> weak_signal e \<Longrightarrow>
        currentPresence ?d' \<and> \<not> inGracePeriod ?d' \<and> effects ?d' = effects ?d"
    using grace_found_accepted [OF assms p, of "rssi_of e" "at e"]
    by (simp add: d' weak_signal_def)
  have b: "found e \<and> weak_signal e \<Longrightarrow>
        currentPresence ?d' \<and> inGracePeriod ?d' \<and> effects ?d' = effects ?d"
    using grace_found_weak [OF assms p, of "rssi_of e" "at e"]
    by (simp add: d' weak_signal_def)
  have m: "\<not> found e \<Longrightarrow>
        (if grace_expires ?d e
         then \<not> currentPresence ?d' \<and> \<not> inGracePeriod ?d'
              \<and> effects ?d' = effects ?d @ [PublishPresenceUpdate False, UpdateMainDisplay]
         else currentPresence ?d' \<and> inGracePeriod ?d' \<and> effects ?d' = effects ?d)"
  proof -
    assume nf: "\<not> found e"
    then have "e = \<lparr>at = at e, found = False, rssi_of = rssi_of e\<rparr>" by simp
    then have "grace_expires ?d e = grace_expires ?d \<lparr>at = at e, found = False, rssi_of = rssi_of e\<rparr>"
      by simp
    then show ?thesis
      using grace_miss [OF assms p, of "at e" "rssi_of e"] nf by (simp add: d')
  qed
  have tail: "\<not> currentPresence ?d' \<Longrightarrow> \<forall>m \<in> set ms. \<not> found m \<Longrightarrow>
        \<not> currentPresence (run_detector (es @ [e] @ ms))
        \<and> effects (run_detector (es @ [e] @ ms)) = effects ?d'"
  proof -
    assume h: "\<not> currentPresence ?d'" "\<forall>m \<in> set ms. \<not> found m"
    have "run_detector (es @ [e] @ ms) = foldl observe ?d' ms"
      by (simp add: run_detector_def)
    then show ?thesis using away_misses [OF h] by simp
  qed
  show ?thesis using p a b m tail by (auto split: if_splits)
qed

text \<open>A reconnection, a miss inside the window, and the expiry, from a started grace period.\<close>

theorem C8_grace_period_witness:
  "inGracePeriod (run_detector grace_started)
   \<and> found (scan_found 20000) \<and> \<not> weak_signal (scan_found 20000)
   \<and> currentPresence (run_detector (grace_started @ [scan_found 20000]))
   \<and> \<not> inGracePeriod (run_detector (grace_started @ [scan_found 20000]))
   \<and> \<not> found (scan_miss 16000) \<and> \<not> grace_expires (run_detector grace_started) (scan_miss 16000)
   \<and> currentPresence (run_detector (grace_started @ [scan_miss 16000]))
   \<and> inGracePeriod (run_detector (grace_started @ [scan_miss 16000]))
   \<and> \<not> found (scan_miss 73000) \<and> grace_expires (run_detector grace_started) (scan_miss 73000)
   \<and> \<not> currentPresence (run_detector (grace_started @ [scan_miss 73000]))
   \<and> effects (run_detector (grace_started @ [scan_miss 73000]))
       = [PublishPresenceUpdate True, UpdateMainDisplay, PublishPresenceUpdate False, UpdateMainDisplay]
   \<and> \<not> found (scan_miss 78000) \<and> \<not> found (scan_miss 83000)
   \<and> effects (run_detector (grace_started @ [scan_miss 73000] @ [scan_miss 78000, scan_miss 83000]))
       = [PublishPresenceUpdate True, UpdateMainDisplay, PublishPresenceUpdate False, UpdateMainDisplay]"
proof -
  have g: "inGracePeriod (run_detector grace_started)"
    by (simp add: grace_started_run)
  have h: "found (scan_found 20000)" "\<not> weak_signal (scan_found 20000)"
    "\<not> found (scan_miss 16000)" "\<not> grace_expires (run_detector grace_started) (scan_miss 16000)"
    "\<not> found (scan_miss 73000)" "grace_expires (run_detector grace_started) (scan_miss 73000)"
    "\<forall>m \<in> set [scan_miss 78000, scan_miss 83000]. \<not> found m"
    "effects (run_detector grace_started) = [PublishPresenceUpdate True, UpdateMainDisplay]"
    by (simp_all add: scan_found_def scan_miss_def weak_signal_def grace_expires_def
        grace_started_run arrival_run detector_init_def CONFIRM_ABSENCE_SCANS_def
        BLE_GRACE_PERIOD_MS_def BLE_RECONNECT_MAX_ATTEMPTS_def)
  from C8_grace_period [OF g, of "scan_found 20000"]
       C8_grace_period [OF g, of "scan_miss 16000"]
       C8_grace_period [OF g, of "scan_miss 73000" "[scan_miss 78000, scan_miss 83000]"]
  show ?thesis using g h by simp
qed

section \<open>Properties of the adaptive scan scheduler\<close>

lemma run_scanner_hist_snoc:
  "run_scanner_hist t0 (ks @ [k]) =
     (scanner_update k (run_scanner t0 ks),
      if scans k (run_scanner t0 ks) then scan_outcomes t0 ks @ [beaconDetected k]
      else scan_outcomes t0 ks)"
  by (simp add: run_scanner_hist_def run_scanner_def scan_outcomes_def split_beta)

lemma detections_run_snoc: "detections_run (h @ [b]) = (if b then Suc (detections_run h) else 0)"
  by (simp add: detections_run_def)

lemma misses_run_snoc: "misses_run (h @ [b]) = (if b then 0 else Suc (misses_run h))"
  by (simp add: misses_run_def)

lemma count_scan_fields:
  "currentMode (count_scan k sc) = currentMode sc"
  "modeChangeTime (count_scan k sc) = modeChangeTime sc"
  "scan_consecutiveDetections (count_scan k sc)
     = (if beaconDetected k then scan_consecutiveDetections sc + 1 else 0)"
  "scan_consecutiveMisses (count_scan k sc)
     = (if beaconDetected k then 0 else scan_consecutiveMisses sc + 1)"
  by (simp_all add: count_scan_def scanner_updateStats_def Let_def)

lemma updateScanMode_fields:
  "currentMode (updateScanMode b t sc) = newMode t sc"
  "modeChangeTime (updateScanMode b t sc)
     = (if newMode t sc \<noteq> currentMode sc then t else modeChangeTime sc)"
  "scan_consecutiveDetections (updateScanMode b t sc)
     = (if newMode t sc \<noteq> currentMode sc then 0 else scan_consecutiveDetections sc)"
  "scan_consecutiveMisses (updateScanMode b t sc)
     = (if newMode t sc \<noteq> currentMode sc then 0 else scan_consecutiveMisses sc)"
  by (simp_all add: updateScanMode_def scanner_updateStats_def Let_def)

lemma scanner_update_skip: "\<not> scans k sc \<Longrightarrow> scanner_update k sc = sc"
  by (auto simp: scans_def scanner_update_def)

lemma scanner_update_fields:
  assumes "scans k sc"
  shows "currentMode (scanner_update k sc) = newMode (tick_now k) (count_scan k sc)"
    and "modeChangeTime (scanner_update k sc)
           = (if newMode (tick_now k) (count_scan k sc) \<noteq> currentMode sc then tick_now k
              else modeChangeTime sc)"
    and "scan_consecutiveDetections (scanner_update k sc)
           = (if newMode (tick_now k) (count_scan k sc) \<noteq> currentMode sc then 0
              else scan_consecutiveDetections (count_scan k sc))"
    and "scan_consecutiveMisses (scanner_update k sc)
           = (if newMode (tick_now k) (count_scan k sc) \<noteq> currentMode sc then 0
              else scan_consecutiveMisses (count_scan k sc))"
  using assms
  by (simp_all add: scans_def scanner_update_def Let_def updateScanMode_fields count_scan_fields)

lemma scanner_inv_step:
  assumes inv: "scanner_inv sc h" and s: "scans k sc"
  shows "scanner_inv (scanner_update k sc) (h @ [beaconDetected k])"
proof (cases "currentMode sc")
  case SEARCHING
  then show ?thesis
    using inv
    by (auto simp: scanner_inv_def scanner_update_fields [OF s] count_scan_fields newMode_def
        detections_run_snoc misses_run_snoc)
next
  case MONITORING
  then show ?thesis
    using inv
    by (auto simp: scanner_inv_def scanner_update_fields [OF s] count_scan_fields newMode_def
        detections_run_snoc misses_run_snoc)
next
  case VERIFYING
  then show ?thesis
    using inv
    by (auto simp: scanner_inv_def scanner_update_fields [OF s] count_scan_fields newMode_def
        detections_run_snoc misses_run_snoc)
qed

lemma scanner_inv_run: "scanner_inv (run_scanner t0 ks) (scan_outcomes t0 ks)"
proof (induction ks rule: rev_induct)
  case Nil
  show ?case
    by (simp add: run_scanner_def scan_outcomes_def run_scanner_hist_def scanner_inv_def
        scanner_init_def detections_run_def misses_run_def)
next
  case (snoc k ks)
  have r: "run_scanner t0 (ks @ [k]) = scanner_update k (run_scanner t0 ks)"
    and o: "scan_outcomes t0 (ks @ [k])
             = (if scans k (run_scanner t0 ks) then scan_outcomes t0 ks @ [beaconDetected k]
                else scan_outcomes t0 ks)"
    using run_scanner_hist_snoc [of t0 ks k]
    by (simp_all add: run_scanner_def scan_outcomes_def)
  show ?case
  proof (cases "scans k (run_scanner t0 ks)")
    case True
    then show ?thesis using scanner_inv_step [OF snoc True] by (simp add: r o)
  next
    case False
    then show ?thesis using snoc by (simp add: r o scanner_update_skip)
  qed
qed

text \<open>
  Claim C9. Along every sequence of ticks from the fresh scanner, for the next tick: a
  tick inside the scan interval changes nothing. At a scan, from Searching the mode
  becomes Verifying exactly when the outcomes now end in a run of at least 2 detections,
  from Monitoring exactly when they end in a run of at least 2 misses, and stays as it
  was otherwise. Verifying is left only when more than \<open>PRESENCE_CONFIRM_TIME\<close> has
  passed since \<open>modeChangeTime\<close>, which is the clock reading of the scan that entered
  it and does not move while the mode is held; it is then left for Monitoring when the
  detection counter exceeds the miss counter, and for Searching otherwise.
\<close>

theorem C9_scan_mode_transitions:
  "(\<not> scans k (run_scanner t0 ks) \<longrightarrow>
      scanner_update k (run_scanner t0 ks) = run_scanner t0 ks)
   \<and> (scans k (run_scanner t0 ks) \<longrightarrow>
       (currentMode (run_scanner t0 ks) = SEARCHING \<longrightarrow>
          currentMode (scanner_update k (run_scanner t0 ks))
            = (if 2 \<le> detections_run (scan_outcomes t0 ks @ [beaconDetected k])
               then VERIFYING else SEARCHING))
     \<and> (currentMode (run_scanner t0 ks) = MONITORING \<longrightarrow>
          currentMode (scanner_update k (run_scanner t0 ks))
            = (if 2 \<le> misses_run (scan_outcomes t0 ks @ [beaconDetected k])
               then VERIFYING else MONITORING))
     \<and> (currentMode (run_scanner t0 ks) = VERIFYING \<longrightarrow>
          currentMode (scanner_update k (run_scanner t0 ks))
            = (if tick_now k - modeChangeTime (run_scanner t0 ks) > PRESENCE_CONFIRM_TIME
               then (if scan_consecutiveDetections (count_scan k (run_scanner t0 ks))
                          > scan_consecutiveMisses (count_scan k (run_scanner t0 ks))
                     then MONITORING else SEARCHING)
               else VERIFYING))
     \<and> (currentMode (run_scanner t0 ks) \<noteq> VERIFYING
          \<and> currentMode (scanner_update k (run_scanner t0 ks)) = VERIFYING \<longrightarrow>
          modeChangeTime (scanner_update k (run_scanner t0 ks)) = tick_now k)
     \<and> (currentMode (run_scanner t0 ks) = VERIFYING
          \<and> currentMode (scanner_update k (run_scanner t0 ks)) = VERIFYING \<longrightarrow>
          modeChangeTime (scanner_update k (run_scanner t0 ks))
            = modeChangeTime (run_scanner t0 ks)))"
proof -
  let ?sc = "run_scanner t0 ks"
  let ?h = "scan_outcomes t0 ks"
  have inv: "scanner_inv ?sc ?h" by (rule scanner_inv_run)
  have skip: "\<not> scans k ?sc \<longrightarrow> scanner_update k ?sc = ?sc"
    by (simp add: scanner_update_skip)
  have step: "scans k ?sc \<Longrightarrow>
       (currentMode ?sc = SEARCHING \<longrightarrow>
          currentMode (scanner_update k ?sc)
            = (if 2 \<le> detections_run (?h @ [beaconDetected k]) then VERIFYING else SEARCHING))
     \<and> (currentMode ?sc = MONITORING \<longrightarrow>
          currentMode (scanner_update k ?sc)
            = (if 2 \<le> misses_run (?h @ [beaconDetected k]) then VERIFYING else MONITORING))
     \<and> (currentMode ?sc = VERIFYING \<longrightarrow>
          currentMode (scanner_update k ?sc)
            = (if tick_now k - modeChangeTime ?sc > PRESENCE_CONFIRM_TIME
               then (if scan_consecutiveDetections (count_scan k ?sc)
                          > scan_consecutiveMisses (count_scan k ?sc)
                     then MONITORING else SEARCHING)
               else VERIFYING))
     \<and> (currentMode ?sc \<noteq> VERIFYING \<and> currentMode (scanner_update k ?sc) = VERIFYING \<longrightarrow>
          modeChangeTime (scanner_update k ?sc) = tick_now k)
     \<and> (currentMode ?sc = VERIFYING \<and> currentMode (scanner_update k ?sc) = VERIFYING \<longrightarrow>
          modeChangeTime (scanner_update k ?sc) = modeChangeTime ?sc)"
  proof -
    assume s: "scans k ?sc"
    show ?thesis
      using inv
      by (auto simp: scanner_inv_def scanner_update_fields [OF s] count_scan_fields newMode_def
          detections_run_snoc misses_run_snoc)
  qed
  show ?thesis using skip step by blast
qed

lemmas scanner_defs = run_scanner_def scan_outcomes_def run_scanner_hist_def scanner_init_def
  scanner_update_def scans_def getCurrentScanInterval_def updateScanMode_def newMode_def
  count_scan_def scanner_updateStats_def tick_def Let_def
  BLE_SCAN_INTERVAL_SEARCHING_def BLE_SCAN_INTERVAL_MONITORING_def
  BLE_SCAN_INTERVAL_VERIFICATION_def BLE_RECONNECT_ATTEMPT_INTERVAL_def PRESENCE_CONFIRM_TIME_def
  BLE_STATS_REPORT_INTERVAL_def detector_defs detector_init_def CONFIRM_SCANS_def
  CONFIRM_ABSENCE_SCANS_def

lemma searching_facts:
  "currentMode (run_scanner 0 ticks_searching) = SEARCHING"
  "scans (tick 7000 True) (run_scanner 0 ticks_searching)"
  "scan_outcomes 0 ticks_searching = [True]"
  by (simp_all add: ticks_searching_def scanner_defs)

lemma verifying_facts:
  "currentMode (run_scanner 0 ticks_verifying) = VERIFYING"
  "modeChangeTime (run_scanner 0 ticks_verifying) = 7000"
  "scans (tick 14000 True) (run_scanner 0 ticks_verifying)"
  "\<not> scans (tick 8500 True) (run_scanner 0 ticks_verifying)"
  "scan_consecutiveDetections (count_scan (tick 14000 True) (run_scanner 0 ticks_verifying)) = 2"
  "scan_consecutiveMisses (count_scan (tick 14000 True) (run_scanner 0 ticks_verifying)) = 0"
  by (simp_all add: ticks_verifying_def ticks_searching_def scanner_defs)

lemma monitoring_facts:
  "currentMode (run_scanner 0 ticks_monitoring) = MONITORING"
  "scans (tick 30000 False) (run_scanner 0 ticks_monitoring)"
  "scan_outcomes 0 ticks_monitoring = [True, True, True, True, False]"
  by (simp_all add: ticks_monitoring_def ticks_verifying_def ticks_searching_def scanner_defs)

text \<open>
  Two detections enter Verifying, a tick inside the interval is skipped, a detection
  after the confirmation time resolves to Monitoring, and two misses enter Verifying
  again.
\<close>

theorem C9_scan_mode_transitions_witness:
  "scans (tick 7000 True) (run_scanner 0 ticks_searching)
   \<and> currentMode (run_scanner 0 ticks_searching) = SEARCHING
   \<and> currentMode (scanner_update (tick 7000 True) (run_scanner 0 ticks_searching)) = VERIFYING
   \<and> modeChangeTime (scanner_update (tick 7000 True) (run_scanner 0 ticks_searching)) = 7000
   \<and> \<not> scans (tick 8500 True) (run_scanner 0 ticks_verifying)
   \<and> scanner_update (tick 8500 True) (run_scanner 0 ticks_verifying) = run_scanner 0 ticks_verifying
   \<and> scans (tick 14000 True) (run_scanner 0 ticks_verifying)
   \<and> currentMode (run_scanner 0 ticks_verifying) = VERIFYING
   \<and> currentMode (scanner_update (tick 14000 True) (run_scanner 0 ticks_verifying)) = MONITORING
   \<and> scans (tick 30000 False) (run_scanner 0 ticks_monitoring)
   \<and> currentMode (run_scanner 0 ticks_monitoring) = MONITORING
   \<and> currentMode (scanner_update (tick 30000 False) (run_scanner 0 ticks_monitoring)) = VERIFYING"
proof -
  have t: "tick_now (tick 7000 True) = 7000" "beaconDetected (tick 7000 True)"
    "tick_now (tick 14000 True) = 14000" "\<not> beaconDetected (tick 30000 False)"
    "(14000 - 7000 :: millis) > PRESENCE_CONFIRM_TIME"
    by (simp_all add: tick_def PRESENCE_CONFIRM_TIME_def)
  from C9_scan_mode_transitions [of "tick 7000 True" 0 ticks_searching]
       C9_scan_mode_transitions [of "tick 8500 True" 0 ticks_verifying]
       C9_scan_mode_transitions [of "tick 14000 True" 0 ticks_verifying]
       C9_scan_mode_transitions [of "tick 30000 False" 0 ticks_monitoring]
  show ?thesis
    using searching_facts verifying_facts monitoring_facts t
    by (simp add: detections_run_def misses_run_def)
qed

end
